theory Spec2Isabelle
  imports
    Main
    "HOL-Library.Multiset"
    "HOL-Library.Sublist"
    "HOL-Library.Char_ord"
    "HOL-Library.List_Lexorder"
begin

section \<open>The schema model read by the resolution engine\<close>

text \<open>
  The engine (\<^verbatim>\<open>parseString\<close>, \<^verbatim>\<open>parseBoolean\<close>, \<^verbatim>\<open>parseObject\<close>, \<^verbatim>\<open>parseArray\<close>,
  \<^verbatim>\<open>parseSchema\<close> and the collecting loop of \<^verbatim>\<open>main\<close>) reads a schema through the
  accessors of the schema-model library. Only what the engine reads is modelled.

  A value of Go's \<^verbatim>\<open>any\<close> in an enum literal list: \<^verbatim>\<open>nil\<close>, a string, or a value of
  another dynamic type.
\<close>

datatype any = AnyNil | AnyString string | AnyInt int | AnyBool bool

text \<open>
  \<^verbatim>\<open>base.Schema\<close> with the fields the engine reads; \<^verbatim>\<open>Enum\<close> is a slice that may be
  \<^verbatim>\<open>nil\<close> (\<open>None\<close>), \<^verbatim>\<open>Properties\<close> is a Go map, given as the list of its entries in
  the order one \<^verbatim>\<open>range\<close> loop visits them, \<^verbatim>\<open>Items\<close> is a pointer that may be
  \<^verbatim>\<open>nil\<close>. A \<^verbatim>\<open>base.SchemaProxy\<close> answers \<^verbatim>\<open>IsReference()\<close>, \<^verbatim>\<open>GetReference()\<close> and
  \<^verbatim>\<open>Schema()\<close>, which is taken to return a schema: the one written inline or the one
  referred to. An \<^verbatim>\<open>Items\<close> that is not \<^verbatim>\<open>nil\<close> answers \<^verbatim>\<open>IsA()\<close> with its schema proxy
  \<^verbatim>\<open>A\<close>, or \<^verbatim>\<open>IsB()\<close> with its bool. \<^verbatim>\<open>AdditionalProperties\<close> is an \<^verbatim>\<open>any\<close>: \<^verbatim>\<open>nil\<close>, a
  bool, a \<^verbatim>\<open>*base.SchemaProxy\<close>, or a value of any other dynamic type (\<open>APOther\<close>, such
  as a raw map), on which the type assertion of the engine fails.
\<close>

datatype Schema = MkSchema
    (Type: "string list")
    (Description: string)
    (Enum: "any list option")
    (Required: "string list")
    (Properties: "(string \<times> SchemaProxy) list")
    (Items: "DynamicValue option")
    (AdditionalProperties: AdditionalProperties)
and SchemaProxy = MkSchemaProxy
    (IsReference: bool)
    (GetReference: string)
    (Schema: Schema)
and DynamicValue =
    IsA: DynamicA (A: SchemaProxy)
  | IsB: DynamicB (B: bool)
and AdditionalProperties =
    APNil
  | APBool bool
  | APSchemaProxy SchemaProxy
  | APOther

section \<open>The intermediate type model\<close>

record Property =
  Ref :: string
  Name :: string
  Type :: string
  SchemaName :: string
  Required :: bool
  IsArray :: bool

record Enum =
  Name :: string
  Value :: string

record Type =
  SchemaName :: string
  TypeName :: string
  Filename :: string
  Type :: string
  Comment :: string
  BaseClass :: string
  Properties :: "Property list"
  Enum :: "Enum list"
  Alias :: string
  AdditionalProperties :: string
  IsArray :: bool

definition SorbetUntyped :: string where
  "SorbetUntyped = ''T.untyped''"

text \<open>The zero value \<^verbatim>\<open>Type{}\<close>.\<close>

definition Type_zero :: Type where
  "Type_zero = \<lparr>Type.SchemaName = '''', TypeName = '''', Filename = '''', Type = '''',
     Comment = '''', BaseClass = '''', Properties = [], Enum = [], Alias = '''',
     AdditionalProperties = '''', IsArray = False\<rparr>"

definition IsObject :: "Type \<Rightarrow> bool" where
  "IsObject t = (''T::Struct'' = Type.BaseClass t)"

definition IsEnum :: "Type \<Rightarrow> bool" where
  "IsEnum t = (length (Type.Enum t) > 0)"

section \<open>What the engine calls outside the repository\<close>

text \<open>
  \<^verbatim>\<open>strcase.ToCamel\<close>, \<^verbatim>\<open>strcase.ToSnake\<close> and \<^verbatim>\<open>strings.TrimSpace\<close> are not code of the
  repository: every function of the engine takes them as the parameter \<open>L\<close>.
\<close>

record extern =
  ToCamel :: "string \<Rightarrow> string"
  ToSnake :: "string \<Rightarrow> string"
  TrimSpace :: "string \<Rightarrow> string"

definition prepareComment :: "extern \<Rightarrow> string \<Rightarrow> string" where
  "prepareComment L s = TrimSpace L s"

text \<open>
  Modelled from the spec: \<^verbatim>\<open>strings.Split\<close> is not in the sources. The engine takes "the
  reference's final path segment" from \<^verbatim>\<open>strings.Split(s, "/")\<close>: the list of the parts of
  \<open>s\<close> between the occurrences of a separator of one byte, never empty.
\<close>

fun Split :: "string \<Rightarrow> char \<Rightarrow> string list" where
  "Split [] sep = [[]]"
| "Split (c # cs) sep =
     (if c = sep then [] # Split cs sep
      else (case Split cs sep of [] \<Rightarrow> [[c]] | w # ws \<Rightarrow> (c # w) # ws))"

text \<open>
  Modelled from the spec: \<^verbatim>\<open>slices.SortStableFunc\<close> is not in the sources; it is "a stable
  sort", here by insertion: every element, from the last to the first, goes before the
  first element that is not less than it.
\<close>

fun insertStable :: "('a \<Rightarrow> 'a \<Rightarrow> bool) \<Rightarrow> 'a \<Rightarrow> 'a list \<Rightarrow> 'a list" where
  "insertStable lessf x [] = [x]"
| "insertStable lessf x (y # ys) =
     (if lessf y x then y # insertStable lessf x ys else x # y # ys)"

definition SortStableFunc :: "'a list \<Rightarrow> ('a \<Rightarrow> 'a \<Rightarrow> bool) \<Rightarrow> 'a list" where
  "SortStableFunc x lessf = foldr (insertStable lessf) x []"

text \<open>
  A run ends by returning or by a Go runtime panic. The diagnostic stream is the list of
  the calls made to \<^verbatim>\<open>log.Println\<close>, \<^verbatim>\<open>log.Printf\<close> and \<^verbatim>\<open>fmt.Printf\<close>, in order: a
  \<^verbatim>\<open>Printf\<close> entry keeps the format string and the arguments.
\<close>

datatype panic = IndexOutOfRange | NilPointerDereference

datatype arg = Str string | Strs "string list"

datatype LogEntry = Println string | Printf string "arg list" | fmt_Printf string "arg list"

text \<open>
  \<^verbatim>\<open>reflect.TypeOf(x).String()\<close>, the name of the dynamic type: \<^verbatim>\<open>reflect.TypeOf(nil)\<close> is
  the nil \<^verbatim>\<open>Type\<close>, on which the call of \<^verbatim>\<open>String\<close> panics.
\<close>

fun reflect_TypeOf_String :: "any \<Rightarrow> panic + string" where
  "reflect_TypeOf_String AnyNil = Inl NilPointerDereference"
| "reflect_TypeOf_String (AnyString s) = Inr ''string''"
| "reflect_TypeOf_String (AnyInt i) = Inr ''int''"
| "reflect_TypeOf_String (AnyBool b) = Inr ''bool''"

section \<open>The resolution engine\<close>

subsection \<open>parseString\<close>

text \<open>
  \<open>parseString_enums\<close> is the loop over \<^verbatim>\<open>v.Enum\<close>: a literal that is not a string is
  logged and skipped (\<^verbatim>\<open>val\<close> is then the zero string, whose type is \<^verbatim>\<open>string\<close>). Before
  the loop, \<^verbatim>\<open>parseString\<close> reads \<^verbatim>\<open>v.Enum[0]\<close> whenever \<^verbatim>\<open>v.Enum\<close> is not \<^verbatim>\<open>nil\<close>: on an
  empty slice the index is out of range.
\<close>

fun parseString_enums :: "extern \<Rightarrow> string \<Rightarrow> any list \<Rightarrow> Enum list \<times> LogEntry list" where
  "parseString_enums L name [] = ([], [])"
| "parseString_enums L name (AnyString val # rest) =
     (let (enums, lg) = parseString_enums L name rest
      in (\<lparr>Enum.Name = ToCamel L val, Value = val\<rparr> # enums, lg))"
| "parseString_enums L name (enum # rest) =
     (let (enums, lg) = parseString_enums L name rest
      in (enums,
          Println (''WARN: '' @ name @ '' has a non-string enum type (`  '' @ ''string''
                   @ '' `), which failed to have its type converted to a string'') # lg))"

definition parseString :: "extern \<Rightarrow> string \<Rightarrow> Schema \<Rightarrow> panic + (Type list \<times> LogEntry list)" where
  "parseString L name v =
     (let t = Type_zero\<lparr>Type.SchemaName := name, TypeName := ToCamel L name,
                Filename := ToSnake L name,
                Comment := prepareComment L (Description v), Alias := ''String''\<rparr>
      in case Schema.Enum v of
           None \<Rightarrow> Inr ([t], [])
         | Some enum \<Rightarrow>
             if length enum = 0 then Inl IndexOutOfRange
             else (case reflect_TypeOf_String (enum ! 0) of
                     Inl p \<Rightarrow> Inl p
                   | Inr ty \<Rightarrow>
                       let lg0 = (if ''string'' \<noteq> ty
                                  then [Println (''WARN: '' @ name
                                          @ '' has a non-string enum type (`  '' @ ty
                                          @ '' `), which may not work with enum generation'')]
                                  else []);
                           (enums, lg) = parseString_enums L name enum
                       in Inr ([t\<lparr>Type.Enum := enums\<rparr>], lg0 @ lg)))"

subsection \<open>parseBoolean\<close>

definition parseBoolean :: "extern \<Rightarrow> string \<Rightarrow> Schema \<Rightarrow> panic + (Type list \<times> LogEntry list)" where
  "parseBoolean L name v =
     Inr ([Type_zero\<lparr>Type.SchemaName := name, TypeName := ToCamel L name,
             Filename := ToSnake L name,
             Comment := prepareComment L (Description v), Alias := ''T::Boolean''\<rparr>], [])"

subsection \<open>parseObject\<close>

text \<open>
  The \<^verbatim>\<open>case "array"\<close> arm of the property loop: the element type of an array property.
  \<^verbatim>\<open>schema.Items.IsB()\<close> on a nil \<^verbatim>\<open>Items\<close> dereferences a nil pointer. A
  \<^verbatim>\<open>DynamicValue\<close> is an \<^verbatim>\<open>A\<close> or a \<^verbatim>\<open>B\<close>, so the arm's last \<^verbatim>\<open>else\<close> is never taken.
\<close>

definition parseObject_items ::
    "extern \<Rightarrow> string \<Rightarrow> string \<Rightarrow> Schema \<Rightarrow> panic + (string \<times> LogEntry list)" where
  "parseObject_items L name propertyName schema =
     (case Items schema of
        None \<Rightarrow> Inl NilPointerDereference
      | Some items \<Rightarrow>
          if IsB items then Inr (SorbetUntyped, [])
          else if IsA items then
            (let s = A items
             in if IsReference s
                then Inr (ToCamel L (last (Split (GetReference s) CHR ''/'')), [])
                else (let schema = Schema s
                      in if length (Schema.Type schema) > 0
                         then (if Schema.Type schema ! 0 = ''string'' then Inr (''String'', [])
                               else if Schema.Type schema ! 0 = ''integer''
                               then Inr (''Integer'', [])
                               else Inr (SorbetUntyped,
                                 [Printf ''%s had an unmatched v.Items.Schema.Type in parseObject: %#v\<newline>''
                                    [Str name, Str (Schema.Type schema ! 0)]]))
                         else Inr (SorbetUntyped,
                                 [Printf ''%s had an unset v.Items.Schema.Type in parseObject: %#v\<newline>''
                                    [Str name, Strs (Schema.Type schema)]])))
          else Inr (SorbetUntyped,
                 [Printf ''%s.%s had an unmatched v.Type in parseObject: %#v\<newline>''
                    [Str name, Str propertyName, Str (Schema.Type schema ! 0)]]))"

text \<open>
  The handling of \<^verbatim>\<open>v.AdditionalProperties\<close> at the end of \<^verbatim>\<open>parseObject\<close>: the value
  \<^verbatim>\<open>true\<close>, then, for a value that is not \<^verbatim>\<open>nil\<close>, the type assertion to
  \<^verbatim>\<open>*base.SchemaProxy\<close>, which logs only where it succeeds.
\<close>

definition parseObject_additionalProperties ::
    "string \<Rightarrow> Schema \<Rightarrow> string \<times> LogEntry list" where
  "parseObject_additionalProperties name v =
     (case Schema.AdditionalProperties v of
        APBool True \<Rightarrow> (SorbetUntyped, [])
      | APBool False \<Rightarrow> ('''', [])
      | APNil \<Rightarrow> ('''', [])
      | APOther \<Rightarrow> ('''', [])
      | APSchemaProxy sp \<Rightarrow>
          (let schema = Schema sp
           in if length (Schema.Type schema) > 0
              then (if Schema.Type schema ! 0 = ''string'' then (''String'', [])
                    else if Schema.Type schema ! 0 = ''integer'' then (''Integer'', [])
                    else ('''',
                      [Printf ''%s had an unmatched v.AdditionalProperties in parseObject: %#v\<newline>''
                         [Str name, Str (Schema.Type schema ! 0)]]))
              else ('''',
                      [Printf ''%s had an unmatched v.AdditionalProperties in parseObject: %#v\<newline>''
                         [Str name, Strs (Schema.Type schema)]])))"

text \<open>
  \<open>parseObject\<close> is the function of the source; \<open>parseObject_properties\<close> is its loop
  over \<^verbatim>\<open>v.Properties\<close>, returning the child types, the unsorted property list and the
  diagnostics; \<open>parseObject_property\<close> is the body of that loop, whose property is
  \<open>None\<close> where the body ends in \<^verbatim>\<open>continue\<close>.
\<close>

function
  parseObject :: "extern \<Rightarrow> string \<Rightarrow> Schema \<Rightarrow> panic + (Type list \<times> LogEntry list)"
and
  parseObject_properties ::
    "extern \<Rightarrow> string \<Rightarrow> Schema \<Rightarrow> (string \<times> SchemaProxy) list
       \<Rightarrow> panic + (Type list \<times> Property list \<times> LogEntry list)"
and
  parseObject_property ::
    "extern \<Rightarrow> string \<Rightarrow> Schema \<Rightarrow> string \<Rightarrow> SchemaProxy
       \<Rightarrow> panic + (Type list \<times> Property option \<times> LogEntry list)"
where
  "parseObject L name v =
     (let t = Type_zero\<lparr>Type.SchemaName := name, TypeName := ToCamel L name,
                Filename := ToSnake L name,
                Comment := prepareComment L (Description v), BaseClass := ''T::Struct''\<rparr>
      in case parseObject_properties L name v (Schema.Properties v) of
           Inl p \<Rightarrow> Inl p
         | Inr (types, props, lg) \<Rightarrow>
             (let (ap, lg') = parseObject_additionalProperties name v
              in Inr (types @
                      [t\<lparr>Type.Properties :=
                           SortStableFunc props (\<lambda>a b. Property.Name a < Property.Name b),
                         Type.AdditionalProperties := ap\<rparr>],
                      lg @ lg')))"
| "parseObject_properties L name v [] = Inr ([], [], [])"
| "parseObject_properties L name v ((propertyName, v2) # rest) =
     (case parseObject_property L name v propertyName v2 of
        Inl p \<Rightarrow> Inl p
      | Inr (childTypes, prop, lg) \<Rightarrow>
          (case parseObject_properties L name v rest of
             Inl p \<Rightarrow> Inl p
           | Inr (types, props, lg') \<Rightarrow>
               Inr (childTypes @ types,
                    (case prop of None \<Rightarrow> props | Some p \<Rightarrow> p # props),
                    lg @ lg')))"
| "parseObject_property L name v propertyName v2 =
     (let prop = \<lparr>Property.Ref = '''', Name = ToSnake L propertyName, Type = SorbetUntyped,
                   SchemaName = propertyName,
                   Required = (propertyName \<in> set (Schema.Required v)), IsArray = False\<rparr>
      in if IsReference v2
         then Inr ([], Some (prop\<lparr>Property.Type :=
                                   ToCamel L (last (Split (GetReference v2) CHR ''/''))\<rparr>), [])
         else (let schema = Schema v2
               in if length (Schema.Type schema) = 0
                  then Inr ([], None,
                         [Printf ''Skipping property %s.%s as no Type was present''
                            [Str name, Str propertyName]])
                  else if Schema.Type schema ! 0 = ''string''
                  then Inr ([], Some (prop\<lparr>Property.Type := ''String''\<rparr>), [])
                  else if Schema.Type schema ! 0 = ''boolean''
                  then Inr ([], Some (prop\<lparr>Property.Type := ''T::Boolean''\<rparr>), [])
                  else if Schema.Type schema ! 0 = ''integer''
                  then Inr ([], Some (prop\<lparr>Property.Type := ''Integer''\<rparr>), [])
                  else if Schema.Type schema ! 0 = ''object''
                  then (let objectTypeName = name @ ''_'' @ propertyName
                        in case parseObject L objectTypeName schema of
                             Inl p \<Rightarrow> Inl p
                           | Inr (childTypes, lg) \<Rightarrow>
                               Inr (childTypes,
                                    Some (prop\<lparr>Property.Type := ToCamel L objectTypeName\<rparr>),
                                    lg))
                  else if Schema.Type schema ! 0 = ''array''
                  then (case parseObject_items L name propertyName schema of
                          Inl p \<Rightarrow> Inl p
                        | Inr (ty, lg) \<Rightarrow>
                            Inr ([], Some (prop\<lparr>Property.IsArray := True,
                                                Property.Type := ty\<rparr>), lg))
                  else Inr ([], Some prop,
                         [Printf ''%s.%s had an unmatched v.Type in parseObject: %#v\<newline>''
                            [Str name, Str propertyName, Str (Schema.Type schema ! 0)]])))"
  by pat_completeness auto
termination
  apply (relation "measure (\<lambda>x. case x of
          Inl (L, name, v) \<Rightarrow> 2 * size v + 1
        | Inr (Inl (L, name, v, props)) \<Rightarrow> 2 * size_list (size_prod (\<lambda>_. 0) size) props + 1
        | Inr (Inr (L, name, v, propertyName, v2)) \<Rightarrow> 2 * size v2)")
      apply auto
  subgoal for v by (cases v) simp
  subgoal for v2 by (cases v2) simp
  done

subsection \<open>parseArray\<close>

text \<open>
  As in the property loop, \<^verbatim>\<open>v.Items.IsB()\<close> on a nil \<^verbatim>\<open>Items\<close> dereferences a nil pointer;
  the source has no \<^verbatim>\<open>else\<close> after the two tests.
\<close>

definition parseArray :: "extern \<Rightarrow> string \<Rightarrow> Schema \<Rightarrow> panic + (Type list \<times> LogEntry list)" where
  "parseArray L name v =
     (let t = Type_zero\<lparr>Type.SchemaName := name, TypeName := ToCamel L name,
                Filename := ToSnake L name,
                Comment := prepareComment L (Description v), Alias := SorbetUntyped,
                Type.IsArray := True\<rparr>
      in case Items v of
           None \<Rightarrow> Inl NilPointerDereference
         | Some items \<Rightarrow>
             if IsB items
             then Inr ([t\<lparr>Alias := '''', Type.AdditionalProperties := SorbetUntyped\<rparr>], [])
             else if IsA items then
               (let s = A items
                in if IsReference s
                   then Inr ([t\<lparr>Alias := last (Split (GetReference s) CHR ''/'')\<rparr>], [])
                   else (let schema = Schema s
                         in if length (Schema.Type schema) > 0
                            then (if Schema.Type schema ! 0 = ''string''
                                  then Inr ([t\<lparr>Alias := ''String''\<rparr>], [])
                                  else if Schema.Type schema ! 0 = ''integer''
                                  then Inr ([t\<lparr>Alias := ''Integer''\<rparr>], [])
                                  else Inr ([t],
                                    [Printf ''%s had an unmatched v.Items.Schema.Type in parseArray: %#v\<newline>''
                                       [Str name, Str (Schema.Type schema ! 0)]]))
                            else Inr ([t],
                                    [Printf ''%s had an unset v.Items.Schema.Type in parseArray: %#v\<newline>''
                                       [Str name, Strs (Schema.Type schema)]])))
             else Inr ([t], []))"

subsection \<open>parseSchema and the collecting loop of main\<close>

definition parseSchema :: "extern \<Rightarrow> string \<Rightarrow> Schema \<Rightarrow> panic + (Type list \<times> LogEntry list)" where
  "parseSchema L name v =
     (if length (Schema.Type v) = 0
      then Inr ([], [Printf ''Skipping %s as no Type was present'' [Str name]])
      else if Schema.Type v ! 0 = ''string'' then parseString L name v
      else if Schema.Type v ! 0 = ''boolean'' then parseBoolean L name v
      else if Schema.Type v ! 0 = ''object'' then parseObject L name v
      else if Schema.Type v ! 0 = ''array'' then parseArray L name v
      else Inr ([], [Printf ''%s had an unmatched v.Value.Type in parseSchema: %#v\<newline>''
                       [Str name, Strs (Schema.Type v)]]))"

text \<open>
  The loop of \<^verbatim>\<open>main\<close> over \<^verbatim>\<open>d.Model.Components.Schemas\<close>, a Go map: the argument is
  the list of its entries in the order the \<^verbatim>\<open>range\<close> loop of this run visits them.
  The result is \<^verbatim>\<open>allTypes\<close> and the diagnostics.
\<close>

fun main_allTypes ::
    "extern \<Rightarrow> (string \<times> SchemaProxy) list \<Rightarrow> panic + (Type list \<times> LogEntry list)" where
  "main_allTypes L [] = Inr ([], [])"
| "main_allTypes L ((k, sp) # rest) =
     (if IsReference sp
      then (case main_allTypes L rest of
              Inl p \<Rightarrow> Inl p
            | Inr (allTypes, lg') \<Rightarrow>
                Inr (allTypes, Printf ''Skipping %s as ref'' [Str k] # lg'))
      else (case parseSchema L k (Schema sp) of
              Inl p \<Rightarrow> Inl p
            | Inr (types, lg) \<Rightarrow>
                (case main_allTypes L rest of
                   Inl p \<Rightarrow> Inl p
                 | Inr (allTypes, lg') \<Rightarrow>
                     Inr (types @ allTypes,
                          lg @ (if length types = 0
                                then [Printf ''Missing type data for schema %s\<newline>'' [Str k]]
                                else []) @ lg'))))"

section \<open>The engine of cmd/openapi-sorbet/main.go\<close>

text \<open>
  \<^verbatim>\<open>cmd/openapi-sorbet/main.go\<close> holds the engine over the schema model of another
  library: a \<^verbatim>\<open>SchemaRef\<close> has a \<^verbatim>\<open>Ref\<close> string and a \<^verbatim>\<open>Value\<close>, whose \<^verbatim>\<open>Type\<close> is one
  string; \<^verbatim>\<open>AdditionalProperties.Schema\<close> is a pointer that may be \<^verbatim>\<open>nil\<close>. Its functions
  carry the suffix \<open>_kin\<close> here. Its \<^verbatim>\<open>Property\<close> has no \<^verbatim>\<open>IsArray\<close> field, which
  stays \<open>False\<close>.
\<close>

datatype SchemaRef = MkSchemaRef
    (Ref: string)
    (Value: openapi3_Schema)
and openapi3_Schema = MkOpenapi3Schema
    (Type: string)
    (Description: string)
    (Enum: "any list option")
    (Required: "string list")
    (Properties: "(string \<times> SchemaRef) list")
    (AdditionalProperties_Schema: "SchemaRef option")

definition parseString_kin ::
    "extern \<Rightarrow> string \<Rightarrow> SchemaRef \<Rightarrow> panic + (Type list \<times> LogEntry list)" where
  "parseString_kin L name v =
     (let t = Type_zero\<lparr>Type.SchemaName := name, TypeName := ToCamel L name,
                Filename := ToSnake L name,
                Comment := prepareComment L (openapi3_Schema.Description (Value v)),
                Alias := ''String''\<rparr>
      in case openapi3_Schema.Enum (Value v) of
           None \<Rightarrow> Inr ([t], [])
         | Some enum \<Rightarrow>
             if length enum = 0 then Inl IndexOutOfRange
             else (case reflect_TypeOf_String (enum ! 0) of
                     Inl p \<Rightarrow> Inl p
                   | Inr ty \<Rightarrow>
                       let lg0 = (if ''string'' \<noteq> ty
                                  then [Println (''WARN: '' @ name
                                          @ '' has a non-string enum type (`  '' @ ty
                                          @ '' `), which may not work with enum generation'')]
                                  else []);
                           (enums, lg) = parseString_enums L name enum
                       in Inr ([t\<lparr>Type.Enum := enums\<rparr>], lg0 @ lg)))"

text \<open>The loop of \<^verbatim>\<open>parseObject\<close> over \<^verbatim>\<open>v.Value.Properties\<close>: no entry is skipped.\<close>

fun parseObject_kin_properties ::
    "extern \<Rightarrow> string \<Rightarrow> SchemaRef \<Rightarrow> (string \<times> SchemaRef) list
       \<Rightarrow> Property list \<times> LogEntry list" where
  "parseObject_kin_properties L name v [] = ([], [])"
| "parseObject_kin_properties L name v ((propertyName, v2) # rest) =
     (let prop = \<lparr>Property.Ref = '''', Name = ToSnake L propertyName, Type = ''T.untyped'',
                   SchemaName = propertyName,
                   Required = (propertyName \<in> set (openapi3_Schema.Required (Value v))),
                   IsArray = False\<rparr>;
          (prop, lg) =
            (if SchemaRef.Ref v2 \<noteq> ''''
             then (prop\<lparr>Property.Type := last (Split (SchemaRef.Ref v2) CHR ''/'')\<rparr>, [])
             else if openapi3_Schema.Type (Value v2) = ''string''
             then (prop\<lparr>Property.Type := ''String''\<rparr>, [])
             else if openapi3_Schema.Type (Value v2) = ''integer''
             then (prop\<lparr>Property.Type := ''Integer''\<rparr>, [])
             else (prop,
                   [Printf ''%s.%s had an unmatched v.Value.Type in parseObject: %#v\<newline>''
                      [Str name, Str propertyName, Str (openapi3_Schema.Type (Value v2))]]));
          (props, lg') = parseObject_kin_properties L name v rest
      in (prop # props, lg @ lg'))"

definition parseObject_kin ::
    "extern \<Rightarrow> string \<Rightarrow> SchemaRef \<Rightarrow> panic + (Type list \<times> LogEntry list)" where
  "parseObject_kin L name v =
     (let t = Type_zero\<lparr>Type.SchemaName := name, TypeName := ToCamel L name,
                Filename := ToSnake L name,
                Comment := prepareComment L (openapi3_Schema.Description (Value v)),
                BaseClass := ''T::Struct''\<rparr>;
          (props, lg) =
            parseObject_kin_properties L name v (openapi3_Schema.Properties (Value v));
          t = t\<lparr>Type.Properties :=
                  SortStableFunc props (\<lambda>a b. Property.Name a < Property.Name b)\<rparr>
      in case AdditionalProperties_Schema (Value v) of
           None \<Rightarrow> Inr ([t], lg)
         | Some sp \<Rightarrow>
             if openapi3_Schema.Type (Value sp) = ''string''
             then Inr ([t\<lparr>Type.AdditionalProperties := ''String''\<rparr>], lg)
             else Inr ([t], lg @
                    [fmt_Printf ''TODO: v.Value.AdditionalProperties.Schema.Value.Type: %v\<newline>''
                       [Str (openapi3_Schema.Type (Value sp))]]))"

definition parseSchema_kin ::
    "extern \<Rightarrow> string \<Rightarrow> SchemaRef \<Rightarrow> panic + (Type list \<times> LogEntry list)" where
  "parseSchema_kin L name v =
     (if SchemaRef.Ref v \<noteq> ''''
      then Inr ([], [fmt_Printf ''Schema %s was a reference\<newline>'' [Str name]])
      else if openapi3_Schema.Type (Value v) = ''string'' then parseString_kin L name v
      else if openapi3_Schema.Type (Value v) = ''object'' then parseObject_kin L name v
      else if openapi3_Schema.Type (Value v) = ''array''
      then Inr ([Type_zero\<lparr>Type.SchemaName := name, TypeName := ToCamel L name,
                   Filename := ToSnake L name,
                   Comment := prepareComment L (openapi3_Schema.Description (Value v)),
                   Alias := ''T.untyped'', Type.IsArray := True\<rparr>], [])
      else Inr ([], [Printf ''%s had an unmatched v.Value.Type in parseSchema: %#v\<newline>''
                       [Str name, Str (openapi3_Schema.Type (Value v))]]))"

fun main_allTypes_kin ::
    "extern \<Rightarrow> (string \<times> SchemaRef) list \<Rightarrow> panic + (Type list \<times> LogEntry list)" where
  "main_allTypes_kin L [] = Inr ([], [])"
| "main_allTypes_kin L ((k, v) # rest) =
     (case parseSchema_kin L k v of
        Inl p \<Rightarrow> Inl p
      | Inr (types, lg) \<Rightarrow>
          (case main_allTypes_kin L rest of
             Inl p \<Rightarrow> Inl p
           | Inr (allTypes, lg') \<Rightarrow>
               Inr (types @ allTypes,
                    lg @ (if length types = 0
                          then [Printf ''Missing type data for schema %s\<newline>'' [Str k]]
                          else []) @ lg')))"

section \<open>A naming normalizer for concrete runs\<close>

text \<open>
  Modelled from the spec: the naming normalizer (\<^verbatim>\<open>strcase.ToCamel\<close>, \<^verbatim>\<open>strcase.ToSnake\<close>)
  and \<^verbatim>\<open>strings.TrimSpace\<close> are missing from the sources. The type form is the
  "capitalized-word concatenation, no separators", the file-slug and property form are the
  "lowercase words joined by a single separator character"; the words of an identifier
  are taken to be its maximal runs without \<open>_\<close>, \<open>-\<close> or a space. The theorems below hold
  for every \<open>L\<close>; this instance only evaluates the engine on concrete documents.
\<close>

definition upper :: "char \<Rightarrow> char" where
  "upper c = (case map_of (zip ''abcdefghijklmnopqrstuvwxyz'' ''ABCDEFGHIJKLMNOPQRSTUVWXYZ'') c of
                Some u \<Rightarrow> u | None \<Rightarrow> c)"

definition lower :: "char \<Rightarrow> char" where
  "lower c = (case map_of (zip ''ABCDEFGHIJKLMNOPQRSTUVWXYZ'' ''abcdefghijklmnopqrstuvwxyz'') c of
                Some u \<Rightarrow> u | None \<Rightarrow> c)"

definition words :: "string \<Rightarrow> string list" where
  "words s = filter (\<lambda>w. w \<noteq> [])
     (Split (map (\<lambda>c. if c = CHR ''-'' \<or> c = CHR '' '' then CHR ''_'' else c) s) CHR ''_'')"

fun capitalize :: "string \<Rightarrow> string" where
  "capitalize [] = []"
| "capitalize (c # cs) = upper c # cs"

fun join :: "string list \<Rightarrow> string" where
  "join [] = []"
| "join [w] = w"
| "join (w # ws) = w @ ''_'' @ join ws"

definition type_form :: "string \<Rightarrow> string" where
  "type_form s = concat (map capitalize (words s))"

definition property_form :: "string \<Rightarrow> string" where
  "property_form s = join (map (map lower) (words s))"

definition trim_space :: "string \<Rightarrow> string" where
  "trim_space s = rev (dropWhile (\<lambda>c. c = CHR '' '') (rev (dropWhile (\<lambda>c. c = CHR '' '') s)))"

text \<open>Modelled from the spec: the three functions that the engine takes from outside.\<close>

definition normalizer :: extern where
  "normalizer = \<lparr>ToCamel = type_form, ToSnake = property_form, TrimSpace = trim_space\<rparr>"

section \<open>Concrete documents\<close>

text \<open>A string schema that carries the enum literal list \<open>e\<close>, and a proxy of an inline schema.\<close>

definition string_schema :: "any list option \<Rightarrow> Schema" where
  "string_schema e = MkSchema [''string''] '''' e [] [] None APNil"

definition inline :: "Schema \<Rightarrow> SchemaProxy" where
  "inline s = MkSchemaProxy False '''' s"


definition string_property :: "string \<Rightarrow> bool \<Rightarrow> Property" where
  "string_property n r = \<lparr>Property.Ref = '''', Name = n, Type = ''String'', SchemaName = n,
     Required = r, IsArray = False\<rparr>"

definition struct_type :: "string \<Rightarrow> string \<Rightarrow> string \<Rightarrow> Property list \<Rightarrow> Type" where
  "struct_type sn tn fn props = Type_zero\<lparr>Type.SchemaName := sn, TypeName := tn,
     Filename := fn, BaseClass := ''T::Struct'', Type.Properties := props\<rparr>"


text \<open>
  The object schema \<open>Pet\<close> with an inline nested object property \<open>address\<close>, an array
  property \<open>tags\<close> with \<^verbatim>\<open>items: true\<close>, and integer-valued additional properties.
\<close>

definition address_schema :: Schema where
  "address_schema = MkSchema [''object''] '''' None []
     [(''street'', inline (string_schema None))] None APNil"

definition tags_schema :: Schema where
  "tags_schema = MkSchema [''array''] '''' None [] [] (Some (DynamicB True)) APNil"

definition integer_schema :: Schema where
  "integer_schema = MkSchema [''integer''] '''' None [] [] None APNil"

definition pet_schema :: Schema where
  "pet_schema = MkSchema [''object''] '''' None []
     [(''address'', inline address_schema), (''tags'', inline tags_schema)]
     None (APSchemaProxy (inline integer_schema))"

definition pet_types :: "Type list" where
  "pet_types =
     [struct_type ''Pet_address'' ''PetAddress'' ''pet_address''
        [string_property ''street'' False],
      (struct_type ''Pet'' ''Pet'' ''pet''
        [\<lparr>Property.Ref = '''', Name = ''address'', Type = ''PetAddress'',
           SchemaName = ''address'', Required = False, IsArray = False\<rparr>,
         \<lparr>Property.Ref = '''', Name = ''tags'', Type = ''T.untyped'',
           SchemaName = ''tags'', Required = False, IsArray = True\<rparr>])
        \<lparr>Type.AdditionalProperties := ''Integer''\<rparr>]"

text \<open>A string schema \<open>Status\<close> with one enum literal, and the record it resolves to.\<close>

definition status_schema :: Schema where
  "status_schema = string_schema (Some [AnyString ''available''])"

definition status_type :: Type where
  "status_type = Type_zero\<lparr>Type.SchemaName := ''Status'', TypeName := ''Status'',
     Filename := ''status'', Alias := ''String'',
     Type.Enum := [\<lparr>Enum.Name = ''Available'', Value = ''available''\<rparr>]\<rparr>"

text \<open>A top-level array schema \<open>Pets\<close> whose items refer to the schema \<open>pet_item\<close>.\<close>

definition pets_schema :: Schema where
  "pets_schema = MkSchema [''array''] '''' None [] []
     (Some (DynamicA (MkSchemaProxy True ''#/components/schemas/pet_item''
                        (MkSchema [] '''' None [] [] None APNil)))) APNil"

text \<open>The string literals of an enum literal list, in order.\<close>

fun string_literals :: "any list \<Rightarrow> string list" where
  "string_literals [] = []"
| "string_literals (AnyString val # rest) = val # string_literals rest"
| "string_literals (enum # rest) = string_literals rest"


text \<open>
  The object schema \<open>Pet\<close> for the engine of \<^verbatim>\<open>cmd/openapi-sorbet/main.go\<close>, with
  integer-valued additional properties and no properties.
\<close>

definition pet_schema_kin :: SchemaRef where
  "pet_schema_kin = MkSchemaRef '''' (MkOpenapi3Schema ''object'' '''' None [] []
     (Some (MkSchemaRef '''' (MkOpenapi3Schema ''integer'' '''' None [] [] None))))"


section \<open>Two runs on one document\<close>

text \<open>
  A run is fixed by the document and by the order in which every \<^verbatim>\<open>range\<close> loop visits
  the entries of its Go map, which the language leaves open. Two lists of map entries
  present the same map to two runs (\<open>same_entries\<close>) when one is a rearrangement of the
  other and the schemas of corresponding entries are the same up to the order of their
  property maps (\<open>same_schema\<close>, \<open>same_proxy\<close>). \<open>same_schema\<close> also asks that the
  property names of the object have distinct normalized names.
\<close>

inductive same_schema :: "extern \<Rightarrow> Schema \<Rightarrow> Schema \<Rightarrow> bool"
  and same_proxy :: "extern \<Rightarrow> SchemaProxy \<Rightarrow> SchemaProxy \<Rightarrow> bool"
  and same_entries ::
    "extern \<Rightarrow> (string \<times> SchemaProxy) list \<Rightarrow> (string \<times> SchemaProxy) list \<Rightarrow> bool"
  for L :: extern
where
  schema:
    "same_entries L ps ps' \<Longrightarrow> distinct (map (\<lambda>e. ToSnake L (fst e)) ps) \<Longrightarrow>
     same_schema L (MkSchema ty d e r ps i ap) (MkSchema ty d e r ps' i ap)"
| proxy:
    "same_schema L s s' \<Longrightarrow> same_proxy L (MkSchemaProxy ir gr s) (MkSchemaProxy ir gr s')"
| nil: "same_entries L [] []"
| cons:
    "same_proxy L p p' \<Longrightarrow> same_entries L ps ps' \<Longrightarrow>
     same_entries L ((k, p) # ps) ((k, p') # ps')"
| swap: "same_entries L (x # y # ps) (y # x # ps)"
| trans: "same_entries L ps ps' \<Longrightarrow> same_entries L ps' ps'' \<Longrightarrow> same_entries L ps ps''"

code_pred same_schema .


text \<open>Documents for two runs: two top-level schemas, and an object with two nested objects.\<close>

definition two_schemas :: "(string \<times> SchemaProxy) list" where
  "two_schemas = [(''Error'', inline (string_schema None)), (''Status'', inline status_schema)]"

definition two_schemas_rev :: "(string \<times> SchemaProxy) list" where
  "two_schemas_rev = [(''Status'', inline status_schema), (''Error'', inline (string_schema None))]"

definition owner_schema :: Schema where
  "owner_schema = MkSchema [''object''] '''' None []
     [(''home'', inline address_schema), (''work'', inline address_schema)] None APNil"

definition owner_schema_rev :: Schema where
  "owner_schema_rev = MkSchema [''object''] '''' None []
     [(''work'', inline address_schema), (''home'', inline address_schema)] None APNil"

definition owner_document :: "(string \<times> SchemaProxy) list" where
  "owner_document = [(''Owner'', inline owner_schema), (''Status'', inline status_schema)]"

definition owner_document_rev :: "(string \<times> SchemaProxy) list" where
  "owner_document_rev =
     [(''Status'', inline status_schema), (''Owner'', inline owner_schema_rev)]"

definition owner_types :: "Type list" where
  "owner_types =
     [struct_type ''Owner_home'' ''OwnerHome'' ''owner_home'' [string_property ''street'' False],
      struct_type ''Owner_work'' ''OwnerWork'' ''owner_work'' [string_property ''street'' False],
      struct_type ''Owner'' ''Owner'' ''owner''
        [\<lparr>Property.Ref = '''', Name = ''home'', Type = ''OwnerHome'',
           SchemaName = ''home'', Required = False, IsArray = False\<rparr>,
         \<lparr>Property.Ref = '''', Name = ''work'', Type = ''OwnerWork'',
           SchemaName = ''work'', Required = False, IsArray = False\<rparr>],
      status_type]"

text \<open>An object whose two property names have one normalized name, in the two orders.\<close>

definition colliding_schema :: Schema where
  "colliding_schema = MkSchema [''object''] '''' None []
     [(''a_b'', inline (string_schema None)), (''a-b'', inline integer_schema)] None APNil"

definition colliding_schema_rev :: Schema where
  "colliding_schema_rev = MkSchema [''object''] '''' None []
     [(''a-b'', inline integer_schema), (''a_b'', inline (string_schema None))] None APNil"

section \<open>Basic facts about the engine\<close>

declare parseObject.simps [simp del] parseObject_properties.simps [simp del]
  parseObject_property.simps [simp del]

lemma normalizer_simps:
  "ToCamel normalizer = type_form"
  "ToSnake normalizer = property_form"
  "TrimSpace normalizer = trim_space"
  by (simp_all add: normalizer_def)

lemmas eval_simps =
  parseObject.simps parseObject_properties.simps parseObject_property.simps
  parseSchema_def parseString_def parseBoolean_def parseArray_def
  parseObject_items_def parseObject_additionalProperties_def
  normalizer_simps type_form_def property_form_def words_def upper_def lower_def
  trim_space_def prepareComment_def SorbetUntyped_def Type_zero_def SortStableFunc_def
  string_schema_def inline_def Let_def string_property_def struct_type_def

text \<open>\<^verbatim>\<open>strings.Split\<close> never returns an empty slice, so \<^verbatim>\<open>parts[len(parts)-1]\<close> is in range.\<close>

lemma Split_not_Nil: "Split s sep \<noteq> []"
  by (induction s) (auto split: list.splits)

text \<open>With \<^verbatim>\<open>a.Name < b.Name\<close> as \<^verbatim>\<open>less\<close>, the stable sort is the library's \<open>sort_key\<close>.\<close>

lemma insertStable_insort_key:
  "insertStable (\<lambda>a b. f a < f b) x ys = insort_key f x ys"
  for f :: "'a \<Rightarrow> 'b::linorder"
  by (induction ys) (auto simp: not_le)

lemma SortStableFunc_sort_key:
  "SortStableFunc xs (\<lambda>a b. f a < f b) = sort_key f xs"
  for f :: "'a \<Rightarrow> 'b::linorder"
proof -
  have "insertStable (\<lambda>a b. f a < f b) = insort_key f"
    by (intro ext) (rule insertStable_insort_key)
  then show ?thesis
    by (simp add: SortStableFunc_def sort_key_def)
qed

text \<open>A property that the loop body appends keeps the names of its map entry.\<close>

lemma parseObject_property_Some:
  assumes "parseObject_property L name v propertyName v2 = Inr (childTypes, Some p, lg)"
  shows "Property.SchemaName p = propertyName"
    and "Property.Name p = ToSnake L propertyName"
    and "Property.Required p = (propertyName \<in> set (Schema.Required v))"
  using assms
  by (auto simp: parseObject_property.simps Let_def split: if_splits sum.splits)

lemma parseObject_properties_Cons:
  assumes "parseObject_properties L name v ((propertyName, v2) # rest) = Inr (types, props, lg)"
  obtains childTypes pr lg1 ts' ps' lg2 where
    "parseObject_property L name v propertyName v2 = Inr (childTypes, pr, lg1)"
    "parseObject_properties L name v rest = Inr (ts', ps', lg2)"
    "types = childTypes @ ts'"
    "props = (case pr of None \<Rightarrow> ps' | Some p \<Rightarrow> p # ps')"
    "lg = lg1 @ lg2"
  using assms
  by (auto simp: parseObject_properties.simps split: sum.splits)

text \<open>What a returning call of \<open>parseObject\<close> has appended last: the parent record.\<close>

lemma parseObject_Inr:
  assumes "parseObject L name v = Inr (types, lg)"
  obtains ts props lg1 t where
    "parseObject_properties L name v (Schema.Properties v) = Inr (ts, props, lg1)"
    "types = ts @ [t]"
    "lg = lg1 @ snd (parseObject_additionalProperties name v)"
    "Type.Properties t = sort_key Property.Name props"
    "Type.AdditionalProperties t = fst (parseObject_additionalProperties name v)"
    "Type.SchemaName t = name"
    "Type.TypeName t = ToCamel L name"
    "Type.Filename t = ToSnake L name"
    "Type.BaseClass t = ''T::Struct''"
    "Type.Alias t = ''''"
    "Type.Enum t = []"
    "Type.IsArray t = False"
  using assms
  by (auto simp: parseObject.simps Let_def SortStableFunc_sort_key Type_zero_def
           split: sum.splits prod.splits)


text \<open>Every entry of the property map has had its turn in a returning loop.\<close>

lemma parseObject_properties_member:
  "parseObject_properties L name v ps = Inr (ts, props, lg) \<Longrightarrow> (pn, v2) \<in> set ps \<Longrightarrow>
   \<exists>cts pr lg1. parseObject_property L name v pn v2 = Inr (cts, pr, lg1)
       \<and> set cts \<subseteq> set ts \<and> (\<forall>q. pr = Some q \<longrightarrow> q \<in> set props) \<and> set lg1 \<subseteq> set lg"
proof (induction ps arbitrary: ts props lg)
  case Nil
  then show ?case by simp
next
  case (Cons e ps)
  obtain propertyName w where e: "e = (propertyName, w)" by (cases e)
  from Cons.prems(1) [unfolded e] show ?case
  proof (rule parseObject_properties_Cons)
    fix childTypes pr lg1 ts' ps' lg2
    assume 1: "parseObject_property L name v propertyName w = Inr (childTypes, pr, lg1)"
      and 2: "parseObject_properties L name v ps = Inr (ts', ps', lg2)"
      and 3: "ts = childTypes @ ts'"
             "props = (case pr of None \<Rightarrow> ps' | Some p \<Rightarrow> p # ps')" "lg = lg1 @ lg2"
    show ?thesis
    proof (cases "(pn, v2) = (propertyName, w)")
      case True
      with 1 3 show ?thesis by (auto split: option.splits)
    next
      case False
      with Cons.prems(2) e have "(pn, v2) \<in> set ps" by auto
      from Cons.IH [OF 2 this] 3 show ?thesis
        by (fastforce split: option.splits)
    qed
  qed
qed

lemma parseObject_property_object:
  assumes "parseObject_property L name v propertyName v2 = Inr (cts, pr, lg)"
    and "\<not> IsReference v2" "Schema.Type (Schema v2) \<noteq> []"
    and "Schema.Type (Schema v2) ! 0 = ''object''"
  shows "\<exists>p. parseObject L (name @ ''_'' @ propertyName) (Schema v2) = Inr (cts, lg)
           \<and> pr = Some p \<and> Property.SchemaName p = propertyName
           \<and> Property.Type p = ToCamel L (name @ ''_'' @ propertyName)"
  using assms
  by (auto simp: parseObject_property.simps Let_def split: sum.splits)

section \<open>The claims\<close>

text \<open>
  C3 (never a panic for a malformed schema entry). A string schema whose enum literal
  list is present but empty makes \<^verbatim>\<open>parseString\<close> read \<^verbatim>\<open>v.Enum[0]\<close> out of range: the
  run panics, and the schemas that the loop of \<^verbatim>\<open>main\<close> would visit afterwards are not
  processed.
\<close>

theorem empty_enum_panics:
  "parseSchema L name (MkSchema (''string'' # ty) d (Some []) r ps i ap) = Inl IndexOutOfRange
   \<and> main_allTypes L
        ((name, MkSchemaProxy False ref (MkSchema (''string'' # ty) d (Some []) r ps i ap))
         # rest) = Inl IndexOutOfRange"
  by (simp add: parseSchema_def parseString_def)

text \<open>A first enum literal that is \<^verbatim>\<open>nil\<close> ends the run in the same way.\<close>

lemma nil_enum_literal_panics:
  "parseSchema L name (MkSchema (''string'' # ty) d (Some (AnyNil # enum)) r ps i ap)
     = Inl NilPointerDereference"
  by (simp add: parseSchema_def parseString_def)

text \<open>
  C4 (enum degradation). A string schema with the enum literals "available", "pending"
  and 42 resolves, without a panic, to one record whose enum list holds exactly the
  entries of the two strings, with one diagnostic for the literal that is not a string.
\<close>

theorem enum_degradation:
  "parseSchema L name (MkSchema (''string'' # ty) d
       (Some [AnyString ''available'', AnyString ''pending'', AnyInt 42]) r ps i ap) =
     Inr ([Type_zero\<lparr>Type.SchemaName := name, TypeName := ToCamel L name,
             Filename := ToSnake L name, Comment := prepareComment L d,
             Alias := ''String'',
             Type.Enum := [\<lparr>Enum.Name = ToCamel L ''available'', Value = ''available''\<rparr>,
                           \<lparr>Enum.Name = ToCamel L ''pending'', Value = ''pending''\<rparr>]\<rparr>],
          [Println (''WARN: '' @ name @ '' has a non-string enum type (`  string `), which failed to have its type converted to a string'')])"
  by (simp add: parseSchema_def parseString_def)



text \<open>
  C6 (nested object extraction). For an inline property of type object, a returning
  \<^verbatim>\<open>parseObject\<close> has emitted a struct-shaped record named from the parent name, an
  underscore and the property name, at an index before the parent record (the last one),
  and the parent has a property of that map entry whose type is the child's type name.
\<close>

theorem nested_object_extraction:
  assumes "parseObject L name v = Inr (types, lg)"
    and "(propertyName, v2) \<in> set (Schema.Properties v)"
    and "\<not> IsReference v2"
    and "Schema.Type (Schema v2) \<noteq> []"
    and "Schema.Type (Schema v2) ! 0 = ''object''"
  shows "\<exists>i p. i < length types - 1
           \<and> IsObject (types ! i)
           \<and> Type.SchemaName (types ! i) = name @ ''_'' @ propertyName
           \<and> Type.TypeName (types ! i) = ToCamel L (name @ ''_'' @ propertyName)
           \<and> Type.SchemaName (last types) = name
           \<and> p \<in> set (Type.Properties (last types))
           \<and> Property.SchemaName p = propertyName
           \<and> Property.Type p = Type.TypeName (types ! i)"
proof -
  from assms(1) obtain ts props lg1 t where
    ps: "parseObject_properties L name v (Schema.Properties v) = Inr (ts, props, lg1)"
    and types: "types = ts @ [t]"
    and t: "Type.Properties t = sort_key Property.Name props" "Type.SchemaName t = name"
    by (rule parseObject_Inr)
  from parseObject_properties_member [OF ps assms(2)] obtain cts pr lg2 where
    pp: "parseObject_property L name v propertyName v2 = Inr (cts, pr, lg2)"
    and sub: "set cts \<subseteq> set ts" and mem: "\<forall>q. pr = Some q \<longrightarrow> q \<in> set props"
    by blast
  from parseObject_property_object [OF pp assms(3-5)] obtain p where
    child: "parseObject L (name @ ''_'' @ propertyName) (Schema v2) = Inr (cts, lg2)"
    and p: "pr = Some p" "Property.SchemaName p = propertyName"
           "Property.Type p = ToCamel L (name @ ''_'' @ propertyName)"
    by blast
  from child obtain cs c where cts: "cts = cs @ [c]"
    and c: "Type.SchemaName c = name @ ''_'' @ propertyName"
           "Type.TypeName c = ToCamel L (name @ ''_'' @ propertyName)"
           "Type.BaseClass c = ''T::Struct''"
    by (rule parseObject_Inr)
  from cts sub have "c \<in> set ts" by auto
  then obtain i where i: "i < length ts" "ts ! i = c"
    by (auto simp: in_set_conv_nth)
  then have ti: "types ! i = c" by (simp add: types nth_append)
  have lt: "last types = t" by (simp add: types)
  have "i < length types - 1" using i(1) by (simp add: types)
  moreover have "IsObject (types ! i)" by (simp add: ti c IsObject_def)
  moreover have "Type.SchemaName (types ! i) = name @ ''_'' @ propertyName"
    by (simp add: ti c)
  moreover have "Type.TypeName (types ! i) = ToCamel L (name @ ''_'' @ propertyName)"
    by (simp add: ti c)
  moreover have "Type.SchemaName (last types) = name" by (simp add: lt t)
  moreover have "p \<in> set (Type.Properties (last types))"
    using mem p(1) by (simp add: lt t)
  moreover have "Property.Type p = Type.TypeName (types ! i)"
    by (simp add: ti c p)
  ultimately show ?thesis using p(2) by blast
qed

theorem nested_object_extraction_witness:
  "parseObject normalizer ''Pet'' pet_schema = Inr (pet_types, [])
   \<and> (''address'', inline address_schema) \<in> set (Schema.Properties pet_schema)
   \<and> \<not> IsReference (inline address_schema)
   \<and> Schema.Type (Schema (inline address_schema)) \<noteq> []
   \<and> Schema.Type (Schema (inline address_schema)) ! 0 = ''object''
   \<and> (\<exists>i p. i < length pet_types - 1
           \<and> IsObject (pet_types ! i)
           \<and> Type.SchemaName (pet_types ! i) = ''Pet'' @ ''_'' @ ''address''
           \<and> Type.TypeName (pet_types ! i) = ToCamel normalizer (''Pet'' @ ''_'' @ ''address'')
           \<and> Type.SchemaName (last pet_types) = ''Pet''
           \<and> p \<in> set (Type.Properties (last pet_types))
           \<and> Property.SchemaName p = ''address''
           \<and> Property.Type p = Type.TypeName (pet_types ! i))"
proof -
  have run: "parseObject normalizer ''Pet'' pet_schema = Inr (pet_types, [])"
    by (simp add: eval_simps pet_schema_def pet_types_def address_schema_def tags_schema_def
          integer_schema_def)
  have 1: "(''address'', inline address_schema) \<in> set (Schema.Properties pet_schema)"
    by (simp add: pet_schema_def)
  have 2: "\<not> IsReference (inline address_schema)" by (simp add: inline_def)
  have 3: "Schema.Type (Schema (inline address_schema)) \<noteq> []"
    by (simp add: inline_def address_schema_def)
  have 4: "Schema.Type (Schema (inline address_schema)) ! 0 = ''object''"
    by (simp add: inline_def address_schema_def)
  from nested_object_extraction [OF run 1 2 3 4] run 1 2 3 4 show ?thesis by blast
qed

text \<open>
  C8 (alias of an array of references). For the top-level array schema \<open>Pets\<close> whose
  items refer to \<^verbatim>\<open>#/components/schemas/pet_item\<close>, \<^verbatim>\<open>parseArray\<close> sets the alias to the last
  path segment as it is written, \<open>pet_item\<close>, whatever the normalizer; for an array
  property with the same items \<^verbatim>\<open>parseObject\<close> takes the type form of that segment, which
  is \<open>PetItem\<close>, the name under which the referenced schema is emitted.
\<close>

theorem array_reference_alias_raw:
  "parseSchema L ''Pets'' pets_schema =
     Inr ([Type_zero\<lparr>Type.SchemaName := ''Pets'', TypeName := ToCamel L ''Pets'',
             Filename := ToSnake L ''Pets'', Comment := prepareComment L '''',
             Alias := ''pet_item'', Type.IsArray := True\<rparr>], [])
   \<and> parseObject_items L name propertyName pets_schema = Inr (ToCamel L ''pet_item'', [])
   \<and> ToCamel normalizer ''pet_item'' = ''PetItem''"
  by (simp add: parseSchema_def parseArray_def parseObject_items_def pets_schema_def Let_def
        SorbetUntyped_def Type_zero_def normalizer_simps type_form_def words_def upper_def)

lemma parseString_enums_fst:
  "fst (parseString_enums L name enum) =
     map (\<lambda>val. \<lparr>Enum.Name = ToCamel L val, Value = val\<rparr>) (string_literals enum)"
  by (induction L name enum rule: parseString_enums.induct) (auto split: prod.splits)

text \<open>
  C7 (enum entry names). The claim as stated fails: the literal "available" gets the
  entry name \<open>Available\<close>, its type form (\<^verbatim>\<open>strcase.ToCamel\<close>), not its property form
  \<open>available\<close>.
\<close>

theorem enum_name_counterexample:
  "parseSchema normalizer ''Status'' status_schema = Inr ([status_type], [])
   \<and> map Enum.Name (Type.Enum status_type) = [''Available'']
   \<and> ToSnake normalizer ''available'' = ''available''
   \<and> ''Available'' \<noteq> ToSnake normalizer ''available''"
  by (simp add: eval_simps status_schema_def status_type_def)

text \<open>
  C7, amended: the enum list of the record that \<^verbatim>\<open>parseString\<close> emits has one entry for
  every string literal of the enum list, in order; its \<^verbatim>\<open>Name\<close> is the literal in type
  form (\<^verbatim>\<open>strcase.ToCamel\<close>) and its \<^verbatim>\<open>Value\<close> is the literal itself.
\<close>

theorem enum_entries_type_form:
  assumes "parseString L name v = Inr (types, lg)"
    and "Schema.Enum v = Some enum"
  shows "\<exists>t. types = [t]
           \<and> Type.Enum t = map (\<lambda>val. \<lparr>Enum.Name = ToCamel L val, Value = val\<rparr>)
                               (string_literals enum)"
proof -
  have "fst (parseString_enums L name enum) =
          map (\<lambda>val. \<lparr>Enum.Name = ToCamel L val, Value = val\<rparr>) (string_literals enum)"
    by (rule parseString_enums_fst)
  with assms show ?thesis
    by (auto simp: parseString_def Let_def split: if_splits sum.splits prod.splits)
qed

theorem enum_entries_type_form_witness:
  "parseString normalizer ''Status'' status_schema = Inr ([status_type], [])
   \<and> Schema.Enum status_schema = Some [AnyString ''available'']
   \<and> (\<exists>t. [status_type] = [t]
           \<and> Type.Enum t = map (\<lambda>val. \<lparr>Enum.Name = ToCamel normalizer val, Value = val\<rparr>)
                               (string_literals [AnyString ''available'']))"
proof -
  have run: "parseString normalizer ''Status'' status_schema = Inr ([status_type], [])"
    by (simp add: eval_simps status_schema_def status_type_def)
  have e: "Schema.Enum status_schema = Some [AnyString ''available'']"
    by (simp add: status_schema_def string_schema_def)
  from enum_entries_type_form [OF run e] run e show ?thesis by blast
qed

text \<open>
  C9 (additional properties). The claim as stated fails: for an additional-properties
  schema of type integer, \<^verbatim>\<open>parseObject\<close> sets the field to \<open>Integer\<close> and logs
  nothing.
\<close>

theorem additional_properties_integer_counterexample:
  "parseSchema normalizer ''Pet'' pet_schema = Inr (pet_types, [])
   \<and> Schema.AdditionalProperties pet_schema = APSchemaProxy (inline integer_schema)
   \<and> Schema.Type (Schema (inline integer_schema)) = [''integer'']
   \<and> Type.AdditionalProperties (last pet_types) = ''Integer''"
  by (simp add: eval_simps pet_schema_def pet_types_def address_schema_def tags_schema_def
          integer_schema_def)

text \<open>
  C9, amended. In the engine over libopenapi, \<^verbatim>\<open>parseObject\<close> reads the
  additional-properties specification as follows: a schema proxy of value type string
  gives \<open>String\<close> and one of value type integer gives \<open>Integer\<close>, both without a
  diagnostic; a schema proxy of any other value type, or with an empty type list, leaves
  the field unset and ends the log with the diagnostic "unmatched
  v.AdditionalProperties"; a value that is no schema proxy leaves the field unset without
  a diagnostic, save \<^verbatim>\<open>true\<close>, which gives \<open>T.untyped\<close>. In the engine of
  \<^verbatim>\<open>cmd/openapi-sorbet/main.go\<close>, a schema of value type string gives \<open>String\<close> without a
  diagnostic, and a schema of any other value type leaves the field unset and prints the
  line "TODO". \<open>lg1\<close> is the log of the property loop.
\<close>

theorem additional_properties_schema:
  assumes "parseObject L name v = Inr (types, lg)"
  shows "(\<exists>ts props lg1.
           parseObject_properties L name v (Schema.Properties v) = Inr (ts, props, lg1)
         \<and> (Type.AdditionalProperties (last types), lg) =
             (case Schema.AdditionalProperties v of
                APSchemaProxy sp \<Rightarrow>
                  if Schema.Type (Schema sp) = []
                  then ('''', lg1 @
                     [Printf ''%s had an unmatched v.AdditionalProperties in parseObject: %#v\<newline>''
                        [Str name, Strs (Schema.Type (Schema sp))]])
                  else if Schema.Type (Schema sp) ! 0 = ''string'' then (''String'', lg1)
                  else if Schema.Type (Schema sp) ! 0 = ''integer'' then (''Integer'', lg1)
                  else ('''', lg1 @
                     [Printf ''%s had an unmatched v.AdditionalProperties in parseObject: %#v\<newline>''
                        [Str name, Str (Schema.Type (Schema sp) ! 0)]])
              | APBool b \<Rightarrow> (if b then ''T.untyped'' else '''', lg1)
              | APNil \<Rightarrow> ('''', lg1)
              | APOther \<Rightarrow> ('''', lg1)))
     \<and> (\<exists>t. parseObject_kin L name w =
               Inr ([t],
                    snd (parseObject_kin_properties L name w
                           (openapi3_Schema.Properties (Value w))) @
                    (case AdditionalProperties_Schema (Value w) of
                       None \<Rightarrow> []
                     | Some sq \<Rightarrow>
                         if openapi3_Schema.Type (Value sq) = ''string'' then []
                         else [fmt_Printf
                                 ''TODO: v.Value.AdditionalProperties.Schema.Value.Type: %v\<newline>''
                                 [Str (openapi3_Schema.Type (Value sq))]]))
            \<and> Type.AdditionalProperties t =
                (case AdditionalProperties_Schema (Value w) of
                   None \<Rightarrow> ''''
                 | Some sq \<Rightarrow>
                     if openapi3_Schema.Type (Value sq) = ''string'' then ''String''
                     else ''''))"
proof -
  from assms obtain ts props lg1 t where
    ps: "parseObject_properties L name v (Schema.Properties v) = Inr (ts, props, lg1)"
    and types: "types = ts @ [t]"
    and lg: "lg = lg1 @ snd (parseObject_additionalProperties name v)"
    and ap: "Type.AdditionalProperties t = fst (parseObject_additionalProperties name v)"
    by (rule parseObject_Inr)
  have new: "(Type.AdditionalProperties (last types), lg) =
             (case Schema.AdditionalProperties v of
                APSchemaProxy sp \<Rightarrow>
                  if Schema.Type (Schema sp) = []
                  then ('''', lg1 @
                     [Printf ''%s had an unmatched v.AdditionalProperties in parseObject: %#v\<newline>''
                        [Str name, Strs (Schema.Type (Schema sp))]])
                  else if Schema.Type (Schema sp) ! 0 = ''string'' then (''String'', lg1)
                  else if Schema.Type (Schema sp) ! 0 = ''integer'' then (''Integer'', lg1)
                  else ('''', lg1 @
                     [Printf ''%s had an unmatched v.AdditionalProperties in parseObject: %#v\<newline>''
                        [Str name, Str (Schema.Type (Schema sp) ! 0)]])
              | APBool b \<Rightarrow> (if b then ''T.untyped'' else '''', lg1)
              | APNil \<Rightarrow> ('''', lg1)
              | APOther \<Rightarrow> ('''', lg1))"
    by (simp add: types lg ap parseObject_additionalProperties_def Let_def SorbetUntyped_def
          split: AdditionalProperties.splits bool.splits)
  have old: "\<exists>t. parseObject_kin L name w =
               Inr ([t],
                    snd (parseObject_kin_properties L name w
                           (openapi3_Schema.Properties (Value w))) @
                    (case AdditionalProperties_Schema (Value w) of
                       None \<Rightarrow> []
                     | Some sq \<Rightarrow>
                         if openapi3_Schema.Type (Value sq) = ''string'' then []
                         else [fmt_Printf
                                 ''TODO: v.Value.AdditionalProperties.Schema.Value.Type: %v\<newline>''
                                 [Str (openapi3_Schema.Type (Value sq))]]))
            \<and> Type.AdditionalProperties t =
                (case AdditionalProperties_Schema (Value w) of
                   None \<Rightarrow> ''''
                 | Some sq \<Rightarrow>
                     if openapi3_Schema.Type (Value sq) = ''string'' then ''String''
                     else '''')"
    by (simp add: parseObject_kin_def Let_def Type_zero_def split: prod.splits option.splits)
  from ps new old show ?thesis by blast
qed

theorem additional_properties_schema_witness:
  "parseObject normalizer ''Pet'' pet_schema = Inr (pet_types, [])
   \<and> Schema.AdditionalProperties pet_schema = APSchemaProxy (inline integer_schema)
   \<and> (\<exists>ts props lg1.
           parseObject_properties normalizer ''Pet'' pet_schema (Schema.Properties pet_schema)
             = Inr (ts, props, lg1)
         \<and> (Type.AdditionalProperties (last pet_types), []) = (''Integer'', lg1))
   \<and> (\<exists>t. parseObject_kin normalizer ''Pet'' pet_schema_kin =
               Inr ([t], [fmt_Printf
                            ''TODO: v.Value.AdditionalProperties.Schema.Value.Type: %v\<newline>''
                            [Str ''integer'']])
            \<and> Type.AdditionalProperties t = '''')"
proof -
  have run: "parseObject normalizer ''Pet'' pet_schema = Inr (pet_types, [])"
    by (simp add: eval_simps pet_schema_def pet_types_def address_schema_def tags_schema_def
          integer_schema_def)
  have ap: "Schema.AdditionalProperties pet_schema = APSchemaProxy (inline integer_schema)"
    by (simp add: pet_schema_def)
  have ty: "Schema.Type (Schema (inline integer_schema)) = [''integer'']"
    by (simp add: inline_def integer_schema_def)
  have kin: "AdditionalProperties_Schema (Value pet_schema_kin) =
               Some (MkSchemaRef '''' (MkOpenapi3Schema ''integer'' '''' None [] [] None))"
    "openapi3_Schema.Properties (Value pet_schema_kin) = []"
    by (simp_all add: pet_schema_kin_def)
  from additional_properties_schema [OF run, of pet_schema_kin] run ap show ?thesis
    by (simp add: ty kin)
qed

text \<open>
  A specification that reaches \<^verbatim>\<open>parseObject\<close> as a value that is no schema proxy is
  passed over in silence, whatever it says.
\<close>

lemma additional_properties_other_silent:
  "parseObject L name (MkSchema ty d e r [] i APOther) =
     Inr ([Type_zero\<lparr>Type.SchemaName := name, TypeName := ToCamel L name,
             Filename := ToSnake L name, Comment := prepareComment L d,
             BaseClass := ''T::Struct''\<rparr>], [])"
  by (simp add: parseObject.simps parseObject_properties.simps
        parseObject_additionalProperties_def SortStableFunc_def Type_zero_def)

text \<open>
  C10 (array property with unconstrained items). For an inline array property whose
  \<^verbatim>\<open>Items\<close> is a \<^verbatim>\<open>B\<close>, the loop body emits no child type and no diagnostic, and the
  property, with \<^verbatim>\<open>IsArray\<close> set and the type \<open>T.untyped\<close>, is in the parent's property
  list; \<^verbatim>\<open>parseArray\<close> on the same schema clears the alias and records \<open>T.untyped\<close> in
  \<^verbatim>\<open>AdditionalProperties\<close>.
\<close>

theorem untyped_array_property:
  assumes "parseObject L name v = Inr (types, lg)"
    and "(propertyName, v2) \<in> set (Schema.Properties v)"
    and "\<not> IsReference v2"
    and "Schema.Type (Schema v2) \<noteq> []"
    and "Schema.Type (Schema v2) ! 0 = ''array''"
    and "Items (Schema v2) = Some items"
    and "IsB items"
  shows "parseObject_property L name v propertyName v2 =
           Inr ([], Some \<lparr>Property.Ref = '''', Name = ToSnake L propertyName,
                          Type = ''T.untyped'', SchemaName = propertyName,
                          Required = (propertyName \<in> set (Schema.Required v)),
                          IsArray = True\<rparr>, [])
       \<and> \<lparr>Property.Ref = '''', Name = ToSnake L propertyName,
            Type = ''T.untyped'', SchemaName = propertyName,
            Required = (propertyName \<in> set (Schema.Required v)),
            IsArray = True\<rparr> \<in> set (Type.Properties (last types))
       \<and> parseArray L name' (Schema v2) =
           Inr ([Type_zero\<lparr>Type.SchemaName := name', TypeName := ToCamel L name',
                   Filename := ToSnake L name',
                   Comment := prepareComment L (Schema.Description (Schema v2)),
                   Alias := '''', Type.AdditionalProperties := ''T.untyped'',
                   Type.IsArray := True\<rparr>], [])"
proof -
  let ?p = "\<lparr>Property.Ref = '''', Name = ToSnake L propertyName,
            Type = ''T.untyped'', SchemaName = propertyName,
            Required = (propertyName \<in> set (Schema.Required v)),
            IsArray = True\<rparr>"
  have body: "parseObject_property L name v propertyName v2 = Inr ([], Some ?p, [])"
    using assms(3-7)
    by (simp add: parseObject_property.simps parseObject_items_def Let_def SorbetUntyped_def)
  from assms(1) obtain ts props lg1 t where
    ps: "parseObject_properties L name v (Schema.Properties v) = Inr (ts, props, lg1)"
    and types: "types = ts @ [t]"
    and t: "Type.Properties t = sort_key Property.Name props"
    by (rule parseObject_Inr)
  from parseObject_properties_member [OF ps assms(2)] body have "?p \<in> set props"
    by auto
  then have "?p \<in> set (Type.Properties (last types))"
    by (simp add: types t)
  moreover have "parseArray L name' (Schema v2) =
           Inr ([Type_zero\<lparr>Type.SchemaName := name', TypeName := ToCamel L name',
                   Filename := ToSnake L name',
                   Comment := prepareComment L (Schema.Description (Schema v2)),
                   Alias := '''', Type.AdditionalProperties := ''T.untyped'',
                   Type.IsArray := True\<rparr>], [])"
    using assms(6,7) by (simp add: parseArray_def Let_def SorbetUntyped_def Type_zero_def)
  ultimately show ?thesis using body by blast
qed

theorem untyped_array_property_witness:
  "parseObject normalizer ''Pet'' pet_schema = Inr (pet_types, [])
   \<and> (''tags'', inline tags_schema) \<in> set (Schema.Properties pet_schema)
   \<and> \<not> IsReference (inline tags_schema)
   \<and> Schema.Type (Schema (inline tags_schema)) \<noteq> []
   \<and> Schema.Type (Schema (inline tags_schema)) ! 0 = ''array''
   \<and> Items (Schema (inline tags_schema)) = Some (DynamicB True)
   \<and> IsB (DynamicB True)
   \<and> parseObject_property normalizer ''Pet'' pet_schema ''tags'' (inline tags_schema) =
           Inr ([], Some \<lparr>Property.Ref = '''', Name = ''tags'',
                          Type = ''T.untyped'', SchemaName = ''tags'',
                          Required = False, IsArray = True\<rparr>, [])
   \<and> \<lparr>Property.Ref = '''', Name = ''tags'', Type = ''T.untyped'', SchemaName = ''tags'',
        Required = False, IsArray = True\<rparr> \<in> set (Type.Properties (last pet_types))
   \<and> parseArray normalizer ''Tags'' (Schema (inline tags_schema)) =
           Inr ([Type_zero\<lparr>Type.SchemaName := ''Tags'', TypeName := ''Tags'',
                   Filename := ''tags'', Comment := '''',
                   Alias := '''', Type.AdditionalProperties := ''T.untyped'',
                   Type.IsArray := True\<rparr>], [])"
proof -
  have run: "parseObject normalizer ''Pet'' pet_schema = Inr (pet_types, [])"
    by (simp add: eval_simps pet_schema_def pet_types_def address_schema_def tags_schema_def
          integer_schema_def)
  have 1: "(''tags'', inline tags_schema) \<in> set (Schema.Properties pet_schema)"
    by (simp add: pet_schema_def)
  have 2: "\<not> IsReference (inline tags_schema)" by (simp add: inline_def)
  have 3: "Schema.Type (Schema (inline tags_schema)) \<noteq> []"
    by (simp add: inline_def tags_schema_def)
  have 4: "Schema.Type (Schema (inline tags_schema)) ! 0 = ''array''"
    by (simp add: inline_def tags_schema_def)
  have 5: "Items (Schema (inline tags_schema)) = Some (DynamicB True)"
    by (simp add: inline_def tags_schema_def)
  have 6: "IsB (DynamicB True)" by simp
  have n: "ToSnake normalizer ''tags'' = ''tags''" "ToSnake normalizer ''Tags'' = ''tags''"
     "ToCamel normalizer ''Tags'' = ''Tags''"
     "prepareComment normalizer (Schema.Description (Schema (inline tags_schema))) = ''''"
     "Schema.Required pet_schema = []"
    by (simp_all add: eval_simps tags_schema_def pet_schema_def)
  from untyped_array_property [OF run 1 2 3 4 5 6, of "''Tags''"] run 1 2 3 4 5 6 show ?thesis
    by (simp add: n)
qed

lemma parseObject_struct_shaped:
  shows "parseObject L name v = Inr (types, lg) \<Longrightarrow>
           \<forall>t\<in>set types. Type.BaseClass t = ''T::Struct'' \<and> Type.Alias t = '''' \<and> Type.Enum t = []"
    and "parseObject_properties L name v ps = Inr (ts, props, lg) \<Longrightarrow>
           \<forall>t\<in>set ts. Type.BaseClass t = ''T::Struct'' \<and> Type.Alias t = '''' \<and> Type.Enum t = []"
    and "parseObject_property L name v propertyName v2 = Inr (cts, pr, lg) \<Longrightarrow>
           \<forall>t\<in>set cts. Type.BaseClass t = ''T::Struct'' \<and> Type.Alias t = '''' \<and> Type.Enum t = []"
proof (induction L name v and L name v ps and L name v propertyName v2
       arbitrary: types lg and ts props lg and cts pr lg
       rule: parseObject_parseObject_properties_parseObject_property.induct)
  case (1 L name v)
  from "1.prems" obtain ts props lg1 t where
    ps: "parseObject_properties L name v (Schema.Properties v) = Inr (ts, props, lg1)"
    and types: "types = ts @ [t]"
    and t: "Type.BaseClass t = ''T::Struct''" "Type.Alias t = ''''" "Type.Enum t = []"
    by (rule parseObject_Inr)
  from "1.IH" [OF refl ps] t show ?case by (simp add: types)
next
  case (2 L name v)
  then show ?case by (simp add: parseObject_properties.simps)
next
  case (3 L name v propertyName v2 rest)
  from "3.prems" show ?case
  proof (rule parseObject_properties_Cons)
    fix childTypes pr lg1 ts' ps' lg2
    assume 1: "parseObject_property L name v propertyName v2 = Inr (childTypes, pr, lg1)"
      and 2: "parseObject_properties L name v rest = Inr (ts', ps', lg2)"
      and 3: "ts = childTypes @ ts'"
    from "3.IH"(1) [OF 1] "3.IH"(2) [OF 1 refl refl 2] show ?thesis
      by (auto simp: 3)
  qed
next
  case (4 L name v propertyName v2)
  show ?case
  proof (cases "\<not> IsReference v2 \<and> length (Schema.Type (Schema v2)) \<noteq> 0
                \<and> Schema.Type (Schema v2) ! 0 = ''object''")
    case True
    with "4.prems" have
      "parseObject L (name @ ''_'' @ propertyName) (Schema v2) = Inr (cts, lg)"
      by (auto simp: parseObject_property.simps Let_def split: sum.splits)
    with "4.IH" True show ?thesis by (auto simp: Let_def)
  next
    case False
    with "4.prems" have "cts = []"
      by (auto simp: parseObject_property.simps Let_def split: sum.splits if_splits)
    then show ?thesis by simp
  qed
qed

lemma parseSchema_shape:
  assumes "parseSchema L name v = Inr (types, lg)" and "t \<in> set types"
  shows "(IsObject t \<and> Type.Alias t = '''' \<and> Type.Enum t = [])
       \<or> (\<not> IsObject t \<and> Type.Properties t = [] \<and> (IsEnum t \<longrightarrow> Type.Alias t = ''String''))"
proof (cases "Schema.Type v \<noteq> [] \<and> Schema.Type v ! 0 = ''object''")
  case True
  with assms(1) have "parseObject L name v = Inr (types, lg)"
    by (simp add: parseSchema_def)
  from parseObject_struct_shaped(1) [OF this] assms(2) show ?thesis
    by (simp add: IsObject_def)
next
  case False
  with assms show ?thesis
    by (auto simp: parseSchema_def parseString_def parseBoolean_def parseArray_def Let_def
          IsObject_def IsEnum_def Type_zero_def
          split: if_splits option.splits sum.splits prod.splits)
qed

text \<open>
  C2, amended: every record in \<^verbatim>\<open>allTypes\<close> is either struct-shaped, with an empty alias
  and an empty enum list, or not struct-shaped, with no properties; and a record with a
  non-empty enum list has the alias \<open>String\<close>.
\<close>

theorem emitted_type_shape:
  assumes "main_allTypes L schemas = Inr (allTypes, lg)" and "t \<in> set allTypes"
  shows "(IsObject t \<and> Type.Alias t = '''' \<and> Type.Enum t = [])
       \<or> (\<not> IsObject t \<and> Type.Properties t = [] \<and> (IsEnum t \<longrightarrow> Type.Alias t = ''String''))"
  using assms
proof (induction schemas arbitrary: allTypes lg)
  case Nil
  then show ?case by simp
next
  case (Cons e schemas)
  obtain k sp where e: "e = (k, sp)" by (cases e)
  show ?case
  proof (cases "IsReference sp")
    case True
    with Cons.prems obtain lg' where "main_allTypes L schemas = Inr (allTypes, lg')"
      by (auto simp: e split: sum.splits)
    from Cons.IH [OF this Cons.prems(2)] show ?thesis .
  next
    case False
    with Cons.prems(1) obtain types lg1 rest lg2 where
      1: "parseSchema L k (Schema sp) = Inr (types, lg1)"
      and 2: "main_allTypes L schemas = Inr (rest, lg2)"
      and 3: "allTypes = types @ rest"
      by (auto simp: e split: sum.splits)
    from Cons.prems(2) 3 consider "t \<in> set types" | "t \<in> set rest" by auto
    then show ?thesis
    proof cases
      case 1
      with \<open>parseSchema L k (Schema sp) = Inr (types, lg1)\<close> show ?thesis
        by (rule parseSchema_shape)
    next
      case 2
      with \<open>main_allTypes L schemas = Inr (rest, lg2)\<close> show ?thesis
        by (rule Cons.IH)
    qed
  qed
qed

text \<open>
  C2 (shape invariant). The claim as stated fails: the record of a string schema with
  an enum literal has the non-empty alias \<open>String\<close> and a non-empty enum list.
\<close>

theorem alias_and_enum_counterexample:
  "main_allTypes normalizer [(''Status'', inline status_schema)] = Inr ([status_type], [])
   \<and> Type.Alias status_type = ''String''
   \<and> Type.Enum status_type = [\<lparr>Enum.Name = ''Available'', Value = ''available''\<rparr>]"
  by (simp add: eval_simps status_schema_def status_type_def)

theorem emitted_type_shape_witness:
  "main_allTypes normalizer [(''Status'', inline status_schema)] = Inr ([status_type], [])
   \<and> status_type \<in> set [status_type]
   \<and> ((IsObject status_type \<and> Type.Alias status_type = '''' \<and> Type.Enum status_type = [])
       \<or> (\<not> IsObject status_type \<and> Type.Properties status_type = []
           \<and> (IsEnum status_type \<longrightarrow> Type.Alias status_type = ''String'')))
   \<and> IsEnum status_type"
proof -
  have run: "main_allTypes normalizer [(''Status'', inline status_schema)]
               = Inr ([status_type], [])"
    by (simp add: eval_simps status_schema_def status_type_def)
  have m: "status_type \<in> set [status_type]" by simp
  have "IsEnum status_type" by (simp add: IsEnum_def status_type_def)
  with emitted_type_shape [OF run m] run m show ?thesis by blast
qed

section \<open>Runs that differ in the order of map iteration\<close>

text \<open>
  C1 (determinism). The claim as stated fails: visiting the two entries of the schema
  map in the other order yields the records in the other order, and visiting the two
  nested-object properties of \<open>Owner\<close> in the other order yields its child records in
  the other order.
\<close>

theorem run_order_counterexample:
  "map_sum id (map Type.TypeName \<circ> fst) (main_allTypes normalizer two_schemas)
     = Inr [''Error'', ''Status'']
   \<and> map_sum id (map Type.TypeName \<circ> fst) (main_allTypes normalizer two_schemas_rev)
     = Inr [''Status'', ''Error'']
   \<and> mset two_schemas_rev = mset two_schemas
   \<and> map_sum id (map Type.TypeName \<circ> fst) (parseSchema normalizer ''Owner'' owner_schema)
     = Inr [''OwnerHome'', ''OwnerWork'', ''Owner'']
   \<and> map_sum id (map Type.TypeName \<circ> fst) (parseSchema normalizer ''Owner'' owner_schema_rev)
     = Inr [''OwnerWork'', ''OwnerHome'', ''Owner'']
   \<and> mset (Schema.Properties owner_schema_rev) = mset (Schema.Properties owner_schema)"
  by (simp add: eval_simps two_schemas_def two_schemas_rev_def status_schema_def
        owner_schema_def owner_schema_rev_def address_schema_def)

text \<open>The property loop reads the parent schema only through its required-name set.\<close>

lemma parseObject_properties_Required:
  "Schema.Required v = Schema.Required v' \<Longrightarrow>
   parseObject_properties L name v ps = parseObject_properties L name v' ps"
proof (induction ps)
  case Nil
  show ?case by (simp add: parseObject_properties.simps)
next
  case (Cons e ps)
  obtain k p where e: "e = (k, p)" by (cases e)
  from Cons.prems have a:
    "parseObject_property L name v k p = parseObject_property L name v' k p"
    by (simp add: parseObject_property.simps)
  have b: "parseObject_properties L name v ps = parseObject_properties L name v' ps"
    by (rule Cons.IH [OF Cons.prems])
  show ?case by (simp only: e parseObject_properties.simps a b)
qed

text \<open>The normalized names of the unsorted property list follow the map entries.\<close>

lemma parseObject_properties_names:
  "parseObject_properties L name v ps = Inr (ts, props, lg) \<Longrightarrow>
   subseq (map Property.Name props) (map (\<lambda>e. ToSnake L (fst e)) ps)"
proof (induction ps arbitrary: ts props lg)
  case Nil
  then show ?case by (simp add: parseObject_properties.simps)
next
  case (Cons e ps)
  obtain propertyName v2 where e: "e = (propertyName, v2)" by (cases e)
  from Cons.prems [unfolded e] show ?case
  proof (rule parseObject_properties_Cons)
    fix childTypes pr lg1 ts' ps' lg2
    assume 1: "parseObject_property L name v propertyName v2 = Inr (childTypes, pr, lg1)"
      and 2: "parseObject_properties L name v ps = Inr (ts', ps', lg2)"
      and 3: "props = (case pr of None \<Rightarrow> ps' | Some p \<Rightarrow> p # ps')"
    from Cons.IH [OF 2]
    have IH: "subseq (map Property.Name ps') (map (\<lambda>e. ToSnake L (fst e)) ps)" .
    show ?thesis
    proof (cases pr)
      case None
      with 3 IH show ?thesis by (auto simp: e intro: list_emb_Cons)
    next
      case (Some p)
      with 1 have "Property.Name p = ToSnake L propertyName"
        by (simp add: parseObject_property_Some)
      with 3 Some IH show ?thesis by (simp add: e)
    qed
  qed
qed

text \<open>\<open>parseObject\<close> in terms of its loop, with the sort as \<open>sort_key\<close>.\<close>

lemma parseObject_unfold:
  "parseObject L name v =
     (case parseObject_properties L name v (Schema.Properties v) of
        Inl p \<Rightarrow> Inl p
      | Inr (types, props, lg) \<Rightarrow>
          Inr (types @
               [Type_zero\<lparr>Type.SchemaName := name, TypeName := ToCamel L name,
                  Filename := ToSnake L name,
                  Comment := prepareComment L (Schema.Description v),
                  BaseClass := ''T::Struct'',
                  Type.Properties := sort_key Property.Name props,
                  Type.AdditionalProperties :=
                    fst (parseObject_additionalProperties name v)\<rparr>],
               lg @ snd (parseObject_additionalProperties name v)))"
  by (simp add: parseObject.simps Let_def SortStableFunc_sort_key
           split: sum.splits prod.splits)

text \<open>Exchanging two adjacent map entries exchanges what they contribute.\<close>

lemma parseObject_properties_swap:
  assumes "parseObject_properties L name v (x # y # ps) = Inr (ts, props, lg)"
  shows "\<exists>ts' props' lg'. parseObject_properties L name v (y # x # ps) = Inr (ts', props', lg')
           \<and> mset ts' = mset ts \<and> mset props' = mset props \<and> mset lg' = mset lg"
proof -
  obtain kx px ky py where xy: "x = (kx, px)" "y = (ky, py)"
    by (cases x, cases y) auto
  from assms show ?thesis
    by (auto simp: xy parseObject_properties.simps split: sum.splits option.splits)
qed

lemma main_allTypes_swap:
  assumes "main_allTypes L (x # y # ps) = Inr (ts, lg)"
  shows "\<exists>ts' lg'. main_allTypes L (y # x # ps) = Inr (ts', lg')
           \<and> mset ts' = mset ts \<and> mset lg' = mset lg"
proof -
  obtain kx px ky py where xy: "x = (kx, px)" "y = (ky, py)"
    by (cases x, cases y) auto
  from assms show ?thesis
    by (auto simp: xy split: sum.splits if_splits)
qed

text \<open>The steps of the induction over the relation, for the two loops.\<close>

lemma parseObject_properties_trans_step:
  assumes "\<And>name v ts props lg. parseObject_properties L name v ps = Inr (ts, props, lg) \<Longrightarrow>
             \<exists>ts' props' lg'. parseObject_properties L name v ps' = Inr (ts', props', lg')
               \<and> mset ts' = mset ts \<and> mset props' = mset props \<and> mset lg' = mset lg"
    and "\<And>name v ts props lg. parseObject_properties L name v ps' = Inr (ts, props, lg) \<Longrightarrow>
             \<exists>ts' props' lg'. parseObject_properties L name v ps'' = Inr (ts', props', lg')
               \<and> mset ts' = mset ts \<and> mset props' = mset props \<and> mset lg' = mset lg"
    and "parseObject_properties L name v ps = Inr (ts, props, lg)"
  shows "\<exists>ts' props' lg'. parseObject_properties L name v ps'' = Inr (ts', props', lg')
               \<and> mset ts' = mset ts \<and> mset props' = mset props \<and> mset lg' = mset lg"
proof -
  from assms(1) [OF assms(3)] obtain ts1 props1 lg1 where
    1: "parseObject_properties L name v ps' = Inr (ts1, props1, lg1)"
    and e1: "mset ts1 = mset ts" "mset props1 = mset props" "mset lg1 = mset lg"
    by blast
  from assms(2) [OF 1] obtain ts2 props2 lg2 where
    2: "parseObject_properties L name v ps'' = Inr (ts2, props2, lg2)"
    and e2: "mset ts2 = mset ts1" "mset props2 = mset props1" "mset lg2 = mset lg1"
    by blast
  from 2 e1 e2 show ?thesis by simp
qed

lemma main_allTypes_trans_step:
  assumes "\<And>ts lg. main_allTypes L ps = Inr (ts, lg) \<Longrightarrow>
             \<exists>ts' lg'. main_allTypes L ps' = Inr (ts', lg')
               \<and> mset ts' = mset ts \<and> mset lg' = mset lg"
    and "\<And>ts lg. main_allTypes L ps' = Inr (ts, lg) \<Longrightarrow>
             \<exists>ts' lg'. main_allTypes L ps'' = Inr (ts', lg')
               \<and> mset ts' = mset ts \<and> mset lg' = mset lg"
    and "main_allTypes L ps = Inr (ts, lg)"
  shows "\<exists>ts' lg'. main_allTypes L ps'' = Inr (ts', lg')
               \<and> mset ts' = mset ts \<and> mset lg' = mset lg"
proof -
  from assms(1) [OF assms(3)] obtain ts1 lg1 where
    1: "main_allTypes L ps' = Inr (ts1, lg1)"
    and e1: "mset ts1 = mset ts" "mset lg1 = mset lg"
    by blast
  from assms(2) [OF 1] obtain ts2 lg2 where
    2: "main_allTypes L ps'' = Inr (ts2, lg2)"
    and e2: "mset ts2 = mset ts1" "mset lg2 = mset lg1"
    by blast
  from 2 e1 e2 show ?thesis by simp
qed

lemma parseObject_properties_cons_step:
  assumes P2: "\<And>name v pn cts pr lg. parseObject_property L name v pn p = Inr (cts, pr, lg) \<Longrightarrow>
             \<exists>cts' lg'. parseObject_property L name v pn p' = Inr (cts', pr, lg')
               \<and> mset cts' = mset cts \<and> mset lg' = mset lg"
    and P3: "\<And>name v ts props lg. parseObject_properties L name v ps = Inr (ts, props, lg) \<Longrightarrow>
             \<exists>ts' props' lg'. parseObject_properties L name v ps' = Inr (ts', props', lg')
               \<and> mset ts' = mset ts \<and> mset props' = mset props \<and> mset lg' = mset lg"
    and run: "parseObject_properties L name v ((k, p) # ps) = Inr (ts, props, lg)"
  shows "\<exists>ts' props' lg'. parseObject_properties L name v ((k, p') # ps') = Inr (ts', props', lg')
               \<and> mset ts' = mset ts \<and> mset props' = mset props \<and> mset lg' = mset lg"
  using run
proof (rule parseObject_properties_Cons)
  fix childTypes pr lg1 ts1 ps1 lg2
  assume 1: "parseObject_property L name v k p = Inr (childTypes, pr, lg1)"
    and 2: "parseObject_properties L name v ps = Inr (ts1, ps1, lg2)"
    and 3: "ts = childTypes @ ts1"
           "props = (case pr of None \<Rightarrow> ps1 | Some q \<Rightarrow> q # ps1)" "lg = lg1 @ lg2"
  from P2 [OF 1] obtain cts' lg1' where
    a: "parseObject_property L name v k p' = Inr (cts', pr, lg1')"
    and ea: "mset cts' = mset childTypes" "mset lg1' = mset lg1"
    by blast
  from P3 [OF 2] obtain ts2 ps2 lg2' where
    b: "parseObject_properties L name v ps' = Inr (ts2, ps2, lg2')"
    and eb: "mset ts2 = mset ts1" "mset ps2 = mset ps1" "mset lg2' = mset lg2"
    by blast
  from a b ea eb 3 show ?thesis
    by (simp add: parseObject_properties.simps split: option.splits)
qed

lemma main_allTypes_cons_step:
  assumes ref: "IsReference p' = IsReference p"
    and P2: "\<And>name types lg. parseSchema L name (Schema p) = Inr (types, lg) \<Longrightarrow>
             \<exists>types' lg'. parseSchema L name (Schema p') = Inr (types', lg')
               \<and> mset types' = mset types \<and> mset lg' = mset lg"
    and P3: "\<And>ts lg. main_allTypes L ps = Inr (ts, lg) \<Longrightarrow>
             \<exists>ts' lg'. main_allTypes L ps' = Inr (ts', lg')
               \<and> mset ts' = mset ts \<and> mset lg' = mset lg"
    and run: "main_allTypes L ((k, p) # ps) = Inr (ts, lg)"
  shows "\<exists>ts' lg'. main_allTypes L ((k, p') # ps') = Inr (ts', lg')
               \<and> mset ts' = mset ts \<and> mset lg' = mset lg"
proof (cases "IsReference p")
  case True
  with run obtain lg2 where 2: "main_allTypes L ps = Inr (ts, lg2)"
    and 3: "lg = Printf ''Skipping %s as ref'' [Str k] # lg2"
    by (auto split: sum.splits)
  from P3 [OF 2] obtain ts2 lg2' where
    b: "main_allTypes L ps' = Inr (ts2, lg2')"
    and eb: "mset ts2 = mset ts" "mset lg2' = mset lg2"
    by blast
  from b eb 3 True ref show ?thesis by simp
next
  case False
  with run obtain types lg1 ts1 lg2 where
    1: "parseSchema L k (Schema p) = Inr (types, lg1)"
    and 2: "main_allTypes L ps = Inr (ts1, lg2)"
    and 3: "ts = types @ ts1"
           "lg = lg1 @ (if length types = 0
                        then [Printf ''Missing type data for schema %s\<newline>'' [Str k]]
                        else []) @ lg2"
    by (auto split: sum.splits)
  from P2 [OF 1] obtain types' lg1' where
    a: "parseSchema L k (Schema p') = Inr (types', lg1')"
    and ea: "mset types' = mset types" "mset lg1' = mset lg1"
    by blast
  from P3 [OF 2] obtain ts2 lg2' where
    b: "main_allTypes L ps' = Inr (ts2, lg2')"
    and eb: "mset ts2 = mset ts1" "mset lg2' = mset lg2"
    by blast
  from ea(1) have len: "(types' = []) = (types = [])"
    by (metis mset_zero_iff)
  from a b ea eb 3 False ref len show ?thesis by simp
qed

lemma subseq_distinct: "subseq xs ys \<Longrightarrow> distinct ys \<Longrightarrow> distinct xs"
  by (auto simp: subseq_conv_nths)


text \<open>What does not range over the property map does not depend on it.\<close>

lemma parseString_Properties:
  "parseString L name (MkSchema ty d e r ps' i ap) = parseString L name (MkSchema ty d e r ps i ap)"
  by (simp add: parseString_def)

lemma parseBoolean_Properties:
  "parseBoolean L name (MkSchema ty d e r ps' i ap) = parseBoolean L name (MkSchema ty d e r ps i ap)"
  by (simp add: parseBoolean_def)

lemma parseArray_Properties:
  "parseArray L name (MkSchema ty d e r ps' i ap) = parseArray L name (MkSchema ty d e r ps i ap)"
  by (simp add: parseArray_def)

lemma parseSchema_Properties:
  "\<not> (ty \<noteq> [] \<and> ty ! 0 = ''object'') \<Longrightarrow>
   parseSchema L name (MkSchema ty d e r ps' i ap) = parseSchema L name (MkSchema ty d e r ps i ap)"
  by (auto simp: parseSchema_def parseString_Properties [of L name ty d e r ps' i ap ps]
        parseBoolean_Properties [of L name ty d e r ps' i ap ps]
        parseArray_Properties [of L name ty d e r ps' i ap ps])

lemma parseObject_items_Properties:
  "parseObject_items L name pn (MkSchema ty d e r ps' i ap) =
   parseObject_items L name pn (MkSchema ty d e r ps i ap)"
  by (simp add: parseObject_items_def cong: if_cong option.case_cong)

lemma parseObject_property_Properties:
  assumes "\<not> (\<not> ir \<and> ty \<noteq> [] \<and> ty ! 0 = ''object'')"
  shows "parseObject_property L name v pn (MkSchemaProxy ir gr (MkSchema ty d e r ps' i ap)) =
         parseObject_property L name v pn (MkSchemaProxy ir gr (MkSchema ty d e r ps i ap))"
proof (cases "ir \<or> ty = []")
  case True
  then show ?thesis by (auto simp: parseObject_property.simps Let_def)
next
  case False
  with assms have "ty ! 0 \<noteq> ''object''" by simp
  with False show ?thesis
    by (simp add: parseObject_property.simps Let_def
          parseObject_items_Properties [of L name pn ty d e r ps' i ap ps])
qed

lemma parseObject_property_object_unfold:
  assumes "\<not> IsReference v2" and "Schema.Type (Schema v2) \<noteq> []"
    and "Schema.Type (Schema v2) ! 0 = ''object''"
  shows "parseObject_property L name v pn v2 =
     (case parseObject L (name @ ''_'' @ pn) (Schema v2) of
        Inl p \<Rightarrow> Inl p
      | Inr (childTypes, lg) \<Rightarrow>
          Inr (childTypes,
               Some \<lparr>Property.Ref = '''', Name = ToSnake L pn,
                      Type = ToCamel L (name @ ''_'' @ pn), SchemaName = pn,
                      Required = (pn \<in> set (Schema.Required v)), IsArray = False\<rparr>,
               lg))"
  using assms by (simp add: parseObject_property.simps Let_def split: sum.splits)

text \<open>
  If the first run returns, the second returns the same records and diagnostics up to
  order, and the same record for the object itself; one part for each of the relations.
\<close>

lemma same_document_runs:
  shows "same_schema L s s' \<Longrightarrow>
           (\<forall>name types lg. parseObject L name s = Inr (types, lg) \<longrightarrow>
              (\<exists>types' lg'. parseObject L name s' = Inr (types', lg')
                 \<and> mset types' = mset types \<and> mset lg' = mset lg
                 \<and> last types' = last types))"
    and "same_proxy L p p' \<Longrightarrow>
           IsReference p' = IsReference p
         \<and> (\<forall>name v pn cts pr lg.
               parseObject_property L name v pn p = Inr (cts, pr, lg) \<longrightarrow>
               (\<exists>cts' lg'. parseObject_property L name v pn p' = Inr (cts', pr, lg')
                  \<and> mset cts' = mset cts \<and> mset lg' = mset lg))
         \<and> (\<forall>name types lg. parseSchema L name (Schema p) = Inr (types, lg) \<longrightarrow>
               (\<exists>types' lg'. parseSchema L name (Schema p') = Inr (types', lg')
                  \<and> mset types' = mset types \<and> mset lg' = mset lg))"
    and "same_entries L ps ps' \<Longrightarrow>
           (\<forall>name v ts props lg.
               parseObject_properties L name v ps = Inr (ts, props, lg) \<longrightarrow>
               (\<exists>ts' props' lg'. parseObject_properties L name v ps' = Inr (ts', props', lg')
                  \<and> mset ts' = mset ts \<and> mset props' = mset props \<and> mset lg' = mset lg))
         \<and> (\<forall>ts lg. main_allTypes L ps = Inr (ts, lg) \<longrightarrow>
               (\<exists>ts' lg'. main_allTypes L ps' = Inr (ts', lg')
                  \<and> mset ts' = mset ts \<and> mset lg' = mset lg))"
proof (induction rule: same_schema_same_proxy_same_entries.inducts)
  case (schema ps ps' ty d e r i ap)
  from schema have dist: "distinct (map (\<lambda>e. ToSnake L (fst e)) ps)" by blast
  from schema have IH: "\<And>name v ts props lg.
      parseObject_properties L name v ps = Inr (ts, props, lg) \<Longrightarrow>
      \<exists>ts' props' lg'. parseObject_properties L name v ps' = Inr (ts', props', lg')
         \<and> mset ts' = mset ts \<and> mset props' = mset props \<and> mset lg' = mset lg"
    by blast
  let ?v = "MkSchema ty d e r ps i ap" and ?v' = "MkSchema ty d e r ps' i ap"
  show ?case
  proof (intro allI impI)
    fix name types lg
    assume run: "parseObject L name ?v = Inr (types, lg)"
    then obtain ts props lg1 where
      1: "parseObject_properties L name ?v ps = Inr (ts, props, lg1)"
      by (auto simp: parseObject_unfold split: sum.splits)
    from IH [OF 1] obtain ts' props' lg1' where
      2: "parseObject_properties L name ?v ps' = Inr (ts', props', lg1')"
      and e: "mset ts' = mset ts" "mset props' = mset props" "mset lg1' = mset lg1"
      by blast
    have 3: "parseObject_properties L name ?v' ps' = Inr (ts', props', lg1')"
      using 2 parseObject_properties_Required [of ?v' ?v L name ps'] by simp
    have "distinct (map Property.Name props)"
      using parseObject_properties_names [OF 1] dist by (rule subseq_distinct)
    then have "inj_on Property.Name (set props')"
      using mset_eq_setD [OF e(2)] by (simp add: distinct_map)
    with e(2) have 4: "sort_key Property.Name props' = sort_key Property.Name props"
      by (rule sort_key_eq_sort_key)
    have 5: "parseObject_additionalProperties name ?v' = parseObject_additionalProperties name ?v"
      by (simp add: parseObject_additionalProperties_def)
    let ?t = "Type_zero\<lparr>Type.SchemaName := name, TypeName := ToCamel L name,
        Filename := ToSnake L name, Comment := prepareComment L d,
        BaseClass := ''T::Struct'', Type.Properties := sort_key Property.Name props,
        Type.AdditionalProperties := fst (parseObject_additionalProperties name ?v)\<rparr>"
    from run have t: "types = ts @ [?t]"
      "lg = lg1 @ snd (parseObject_additionalProperties name ?v)"
      by (auto simp: parseObject_unfold 1)
    have r: "parseObject L name ?v' =
            Inr (ts' @ [?t], lg1' @ snd (parseObject_additionalProperties name ?v))"
      by (simp add: parseObject_unfold 3 4 5)
    show "\<exists>types' lg'. parseObject L name ?v' = Inr (types', lg')
            \<and> mset types' = mset types \<and> mset lg' = mset lg
            \<and> last types' = last types"
      by (rule exI [of _ "ts' @ [?t]"],
          rule exI [of _ "lg1' @ snd (parseObject_additionalProperties name ?v)"])
         (simp add: r t e)
  qed
next
  case (proxy s s' ir gr)
  from proxy obtain ps ps' ty d e r i ap where
    s: "s = MkSchema ty d e r ps i ap" "s' = MkSchema ty d e r ps' i ap"
    by (auto elim: same_schema.cases)
  from proxy have IH: "\<And>name types lg. parseObject L name s = Inr (types, lg) \<Longrightarrow>
      \<exists>types' lg'. parseObject L name s' = Inr (types', lg')
         \<and> mset types' = mset types \<and> mset lg' = mset lg"
    by blast
  let ?p = "MkSchemaProxy ir gr s" and ?p' = "MkSchemaProxy ir gr s'"
  have a: "\<exists>cts' lg'. parseObject_property L name v pn ?p' = Inr (cts', pr, lg')
                  \<and> mset cts' = mset cts \<and> mset lg' = mset lg"
    if run: "parseObject_property L name v pn ?p = Inr (cts, pr, lg)"
    for name v pn cts pr lg
  proof (cases "\<not> ir \<and> ty \<noteq> [] \<and> ty ! 0 = ''object''")
    case True
    then have u: "\<not> IsReference ?p" "Schema.Type (Schema ?p) \<noteq> []"
        "Schema.Type (Schema ?p) ! 0 = ''object''"
      and u': "\<not> IsReference ?p'" "Schema.Type (Schema ?p') \<noteq> []"
        "Schema.Type (Schema ?p') ! 0 = ''object''"
      by (simp_all add: s)
    from run have
      1: "parseObject L (name @ ''_'' @ pn) s = Inr (cts, lg)"
      and pr: "pr = Some \<lparr>Property.Ref = '''', Name = ToSnake L pn,
                      Type = ToCamel L (name @ ''_'' @ pn), SchemaName = pn,
                      Required = (pn \<in> set (Schema.Required v)), IsArray = False\<rparr>"
      by (auto simp: parseObject_property_object_unfold [OF u] split: sum.splits)
    from IH [OF 1] obtain types' lg1' where
      2: "parseObject L (name @ ''_'' @ pn) s' = Inr (types', lg1')"
      and e: "mset types' = mset cts" "mset lg1' = mset lg"
      by blast
    have "parseObject_property L name v pn ?p' = Inr (types', pr, lg1')"
      using 2 by (simp add: parseObject_property_object_unfold [OF u'] pr)
    with e show ?thesis by blast
  next
    case False
    then have "parseObject_property L name v pn ?p' = parseObject_property L name v pn ?p"
      unfolding s by (rule parseObject_property_Properties)
    with run show ?thesis by simp
  qed
  have b: "\<exists>types' lg'. parseSchema L name (Schema ?p') = Inr (types', lg')
                  \<and> mset types' = mset types \<and> mset lg' = mset lg"
    if run: "parseSchema L name (Schema ?p) = Inr (types, lg)" for name types lg
  proof (cases "ty \<noteq> [] \<and> ty ! 0 = ''object''")
    case True
    with run have "parseObject L name s = Inr (types, lg)"
      by (simp add: s parseSchema_def)
    from IH [OF this] obtain types' lg' where
      "parseObject L name s' = Inr (types', lg')"
      "mset types' = mset types" "mset lg' = mset lg"
      by blast
    with True show ?thesis by (simp add: s parseSchema_def)
  next
    case False
    then have "parseSchema L name (Schema ?p') = parseSchema L name (Schema ?p)"
      unfolding s SchemaProxy.sel by (rule parseSchema_Properties)
    with run show ?thesis by simp
  qed
  from a b show ?case by simp
next
  case nil
  show ?case by simp
next
  case (cons p p' ps ps' k)
  from cons have ref: "IsReference p' = IsReference p" by blast
  from cons have P2a: "\<And>name v pn cts pr lg.
      parseObject_property L name v pn p = Inr (cts, pr, lg) \<Longrightarrow>
      \<exists>cts' lg'. parseObject_property L name v pn p' = Inr (cts', pr, lg')
         \<and> mset cts' = mset cts \<and> mset lg' = mset lg"
    by blast
  from cons have P2b: "\<And>name types lg. parseSchema L name (Schema p) = Inr (types, lg) \<Longrightarrow>
      \<exists>types' lg'. parseSchema L name (Schema p') = Inr (types', lg')
         \<and> mset types' = mset types \<and> mset lg' = mset lg"
    by blast
  from cons have P3a: "\<And>name v ts props lg.
      parseObject_properties L name v ps = Inr (ts, props, lg) \<Longrightarrow>
      \<exists>ts' props' lg'. parseObject_properties L name v ps' = Inr (ts', props', lg')
         \<and> mset ts' = mset ts \<and> mset props' = mset props \<and> mset lg' = mset lg"
    by blast
  from cons have P3b: "\<And>ts lg. main_allTypes L ps = Inr (ts, lg) \<Longrightarrow>
      \<exists>ts' lg'. main_allTypes L ps' = Inr (ts', lg')
         \<and> mset ts' = mset ts \<and> mset lg' = mset lg"
    by blast
  show ?case
  proof (intro conjI allI impI)
    fix name v ts props lg
    assume "parseObject_properties L name v ((k, p) # ps) = Inr (ts, props, lg)"
    with P2a P3a show "\<exists>ts' props' lg'.
        parseObject_properties L name v ((k, p') # ps') = Inr (ts', props', lg')
        \<and> mset ts' = mset ts \<and> mset props' = mset props \<and> mset lg' = mset lg"
      by (rule parseObject_properties_cons_step)
  next
    fix ts lg
    assume "main_allTypes L ((k, p) # ps) = Inr (ts, lg)"
    with ref P2b P3b show "\<exists>ts' lg'. main_allTypes L ((k, p') # ps') = Inr (ts', lg')
        \<and> mset ts' = mset ts \<and> mset lg' = mset lg"
      by (rule main_allTypes_cons_step)
  qed
next
  case (swap x y ps)
  show ?case
    by (intro conjI allI impI parseObject_properties_swap main_allTypes_swap)
next
  case (trans ps ps' ps'')
  from trans have A1: "\<And>name v ts props lg.
      parseObject_properties L name v ps = Inr (ts, props, lg) \<Longrightarrow>
      \<exists>ts' props' lg'. parseObject_properties L name v ps' = Inr (ts', props', lg')
         \<and> mset ts' = mset ts \<and> mset props' = mset props \<and> mset lg' = mset lg"
    by blast
  from trans have A2: "\<And>name v ts props lg.
      parseObject_properties L name v ps' = Inr (ts, props, lg) \<Longrightarrow>
      \<exists>ts' props' lg'. parseObject_properties L name v ps'' = Inr (ts', props', lg')
         \<and> mset ts' = mset ts \<and> mset props' = mset props \<and> mset lg' = mset lg"
    by blast
  from trans have B1: "\<And>ts lg. main_allTypes L ps = Inr (ts, lg) \<Longrightarrow>
      \<exists>ts' lg'. main_allTypes L ps' = Inr (ts', lg')
         \<and> mset ts' = mset ts \<and> mset lg' = mset lg"
    by blast
  from trans have B2: "\<And>ts lg. main_allTypes L ps' = Inr (ts, lg) \<Longrightarrow>
      \<exists>ts' lg'. main_allTypes L ps'' = Inr (ts', lg')
         \<and> mset ts' = mset ts \<and> mset lg' = mset lg"
    by blast
  show ?case
  proof (intro conjI allI impI)
    fix name v ts props lg
    assume "parseObject_properties L name v ps = Inr (ts, props, lg)"
    with A1 A2 show "\<exists>ts' props' lg'.
        parseObject_properties L name v ps'' = Inr (ts', props', lg')
        \<and> mset ts' = mset ts \<and> mset props' = mset props \<and> mset lg' = mset lg"
      by (rule parseObject_properties_trans_step)
  next
    fix ts lg
    assume "main_allTypes L ps = Inr (ts, lg)"
    with B1 B2 show "\<exists>ts' lg'. main_allTypes L ps'' = Inr (ts', lg')
        \<and> mset ts' = mset ts \<and> mset lg' = mset lg"
      by (rule main_allTypes_trans_step)
  qed
qed

text \<open>
  C1, amended: two runs on one document whose objects have property names with distinct
  normalized names emit the same records and the same diagnostics, each as often, though
  not in the same order; if one run returns, so does the other.
\<close>

theorem runs_same_up_to_order:
  assumes "same_entries L schemas schemas'"
    and "main_allTypes L schemas = Inr (allTypes, lg)"
  shows "\<exists>allTypes' lg'. main_allTypes L schemas' = Inr (allTypes', lg')
           \<and> mset allTypes' = mset allTypes \<and> mset lg' = mset lg"
  using same_document_runs(3) [OF assms(1)] assms(2) by blast

text \<open>The two documents of the witness are related.\<close>

lemma same_schema_no_properties:
  "same_schema L (MkSchema ty d e r [] i ap) (MkSchema ty d e r [] i ap)"
  by (rule same_schema_same_proxy_same_entries.schema)
     (simp_all add: same_schema_same_proxy_same_entries.nil)

lemma same_proxy_inline:
  "same_schema L s s' \<Longrightarrow> same_proxy L (inline s) (inline s')"
  unfolding inline_def by (rule same_schema_same_proxy_same_entries.proxy)

lemma owner_document_same: "same_entries normalizer owner_document owner_document_rev"
proof -
  let ?L = normalizer
  have street: "same_proxy ?L (inline (string_schema None)) (inline (string_schema None))"
    unfolding string_schema_def by (intro same_proxy_inline same_schema_no_properties)
  have address: "same_proxy ?L (inline address_schema) (inline address_schema)"
    unfolding address_schema_def
    by (intro same_proxy_inline same_schema_same_proxy_same_entries.schema
          same_schema_same_proxy_same_entries.cons street
          same_schema_same_proxy_same_entries.nil) simp
  have status: "same_proxy ?L (inline status_schema) (inline status_schema)"
    unfolding status_schema_def string_schema_def
    by (intro same_proxy_inline same_schema_no_properties)
  have "same_entries ?L [(''home'', inline address_schema), (''work'', inline address_schema)]
                        [(''work'', inline address_schema), (''home'', inline address_schema)]"
    by (rule same_schema_same_proxy_same_entries.swap)
  then have "same_schema ?L owner_schema owner_schema_rev"
    unfolding owner_schema_def owner_schema_rev_def
    by (rule same_schema_same_proxy_same_entries.schema) (simp add: eval_simps)
  then have owner: "same_proxy ?L (inline owner_schema) (inline owner_schema_rev)"
    by (rule same_proxy_inline)
  have 1: "same_entries ?L owner_document
             [(''Status'', inline status_schema), (''Owner'', inline owner_schema)]"
    unfolding owner_document_def by (rule same_schema_same_proxy_same_entries.swap)
  have 2: "same_entries ?L
             [(''Status'', inline status_schema), (''Owner'', inline owner_schema)]
             owner_document_rev"
    unfolding owner_document_rev_def
    by (intro same_schema_same_proxy_same_entries.cons status owner
          same_schema_same_proxy_same_entries.nil)
  from 1 2 show ?thesis by (rule same_schema_same_proxy_same_entries.trans)
qed

theorem runs_same_up_to_order_witness:
  "same_entries normalizer owner_document owner_document_rev
   \<and> main_allTypes normalizer owner_document = Inr (owner_types, [])
   \<and> (\<exists>allTypes' lg'. main_allTypes normalizer owner_document_rev = Inr (allTypes', lg')
           \<and> mset allTypes' = mset owner_types \<and> mset lg' = mset [])"
proof -
  have run: "main_allTypes normalizer owner_document = Inr (owner_types, [])"
    by (simp add: eval_simps owner_document_def owner_types_def owner_schema_def
          address_schema_def status_schema_def status_type_def)
  from runs_same_up_to_order [OF owner_document_same run] owner_document_same run show ?thesis by blast
qed

text \<open>
  The relation holds for every rearrangement of a list of entries whose schemas are
  related to themselves, so the theorem covers every order in which the loop of
  \<^verbatim>\<open>main\<close> can visit the schema map.
\<close>

lemma same_entries_refl:
  "(\<forall>e\<in>set ps. same_proxy L (snd e) (snd e)) \<Longrightarrow> same_entries L ps ps"
proof (induction ps)
  case Nil
  show ?case by (rule same_schema_same_proxy_same_entries.nil)
next
  case (Cons e ps)
  obtain k p where e: "e = (k, p)" by (cases e)
  from Cons show ?case
    unfolding e by (intro same_schema_same_proxy_same_entries.cons) simp_all
qed

lemma same_entries_move:
  "(\<forall>e\<in>set (x # as @ bs). same_proxy L (snd e) (snd e)) \<Longrightarrow>
   same_entries L (x # as @ bs) (as @ x # bs)"
proof (induction as)
  case Nil
  then show ?case using same_entries_refl [of "x # bs" L] by simp
next
  case (Cons a as)
  obtain k p where a: "a = (k, p)" by (cases a)
  have 1: "same_entries L (x # a # as @ bs) (a # x # as @ bs)"
    by (rule same_schema_same_proxy_same_entries.swap)
  from Cons.prems have "same_entries L (x # as @ bs) (as @ x # bs)"
    by (intro Cons.IH) simp
  moreover from Cons.prems have "same_proxy L p p" by (simp add: a)
  ultimately have 2: "same_entries L (a # x # as @ bs) (a # as @ x # bs)"
    unfolding a by (rule same_schema_same_proxy_same_entries.cons [rotated])
  from 1 2 show ?case
    by (simp add: same_schema_same_proxy_same_entries.trans [OF 1 2])
qed

lemma same_entries_permutation:
  "mset ps' = mset ps \<Longrightarrow> (\<forall>e\<in>set ps. same_proxy L (snd e) (snd e)) \<Longrightarrow>
   same_entries L ps ps'"
proof (induction ps arbitrary: ps')
  case Nil
  then show ?case by (simp add: same_schema_same_proxy_same_entries.nil)
next
  case (Cons x xs)
  from Cons.prems(1) have "x \<in> set ps'"
    by (metis list.set_intros(1) mset_eq_setD)
  then obtain as bs where ps': "ps' = as @ x # bs"
    by (auto simp: in_set_conv_decomp)
  with Cons.prems(1) have m: "mset (as @ bs) = mset xs" by simp
  from Cons.prems(2) have self: "\<forall>e\<in>set xs. same_proxy L (snd e) (snd e)" by simp
  obtain k p where x: "x = (k, p)" by (cases x)
  from Cons.prems(2) have "same_proxy L p p" by (simp add: x)
  moreover have "same_entries L xs (as @ bs)" by (rule Cons.IH [OF m self])
  ultimately have 1: "same_entries L (x # xs) (x # as @ bs)"
    unfolding x by (rule same_schema_same_proxy_same_entries.cons)
  have "set (x # as @ bs) = set (x # xs)"
    using mset_eq_setD [OF m] by simp
  with Cons.prems(2) have "\<forall>e\<in>set (x # as @ bs). same_proxy L (snd e) (snd e)"
    by simp
  then have 2: "same_entries L (x # as @ bs) (as @ x # bs)"
    by (rule same_entries_move)
  from 1 2 show ?case
    unfolding ps' by (rule same_schema_same_proxy_same_entries.trans)
qed

lemma main_allTypes_permutation:
  assumes "mset schemas' = mset schemas"
    and "\<forall>e\<in>set schemas. same_proxy L (snd e) (snd e)"
    and "main_allTypes L schemas = Inr (allTypes, lg)"
  shows "\<exists>allTypes' lg'. main_allTypes L schemas' = Inr (allTypes', lg')
           \<and> mset allTypes' = mset allTypes \<and> mset lg' = mset lg"
  using same_document_runs(3) [OF same_entries_permutation [OF assms(1,2)]] assms(3)
  by blast

text \<open>
  The side condition on the property names is needed: the sort is stable, so two
  properties with one normalized name stay in the order of the iteration.
\<close>

lemma colliding_names_order:
  "map_sum id (map (map Property.SchemaName \<circ> Type.Properties) \<circ> fst)
     (parseSchema normalizer ''T'' colliding_schema) = Inr [[''a_b'', ''a-b'']]"
  "map_sum id (map (map Property.SchemaName \<circ> Type.Properties) \<circ> fst)
     (parseSchema normalizer ''T'' colliding_schema_rev) = Inr [[''a-b'', ''a_b'']]"
  "mset (Schema.Properties colliding_schema_rev) = mset (Schema.Properties colliding_schema)"
  by (simp_all add: eval_simps colliding_schema_def colliding_schema_rev_def integer_schema_def)

text \<open>
  The record of the object itself is the same in both runs, so its property list does
  not depend on the order of the iteration.
\<close>

lemma parent_record_same_document:
  assumes "same_schema L v v'" and "parseObject L name v = Inr (types, lg)"
  shows "\<exists>types' lg'. parseObject L name v' = Inr (types', lg') \<and> last types' = last types"
  using same_document_runs(1) [OF assms(1)] assms(2) by blast

section \<open>Facts about the engine of cmd/openapi-sorbet/main.go\<close>

text \<open>
  The engine of \<^verbatim>\<open>cmd/openapi-sorbet/main.go\<close> reads the enum literals and sorts the
  properties in the same way; only there every additional-properties schema of a type
  other than string is reported as not handled and leaves the field unset.
\<close>

lemma parseString_kin_empty_enum:
  "parseString_kin L name (MkSchemaRef ref (MkOpenapi3Schema ty d (Some []) r ps ap))
     = Inl IndexOutOfRange"
  by (simp add: parseString_kin_def)

lemma parseString_kin_enum_entries:
  assumes "parseString_kin L name v = Inr (types, lg)"
    and "openapi3_Schema.Enum (Value v) = Some enum"
  shows "\<exists>t. types = [t]
           \<and> Type.Enum t = map (\<lambda>val. \<lparr>Enum.Name = ToCamel L val, Value = val\<rparr>)
                               (string_literals enum)"
proof -
  have "fst (parseString_enums L name enum) =
          map (\<lambda>val. \<lparr>Enum.Name = ToCamel L val, Value = val\<rparr>) (string_literals enum)"
    by (rule parseString_enums_fst)
  with assms show ?thesis
    by (auto simp: parseString_kin_def Let_def split: if_splits sum.splits prod.splits)
qed

lemma parseObject_kin_sorted:
  assumes "parseObject_kin L name v = Inr (types, lg)"
  shows "sorted (map Property.Name (Type.Properties (last types)))"
  using assms
  by (auto simp: parseObject_kin_def Let_def SortStableFunc_sort_key
           split: prod.splits option.splits if_splits)

lemma parseObject_kin_additional_properties:
  assumes "AdditionalProperties_Schema (Value v) = Some sp"
  shows "\<exists>t lg0. parseObject_kin L name v =
           Inr ([t], if openapi3_Schema.Type (Value sp) = ''string'' then lg0
                     else lg0 @
                       [fmt_Printf ''TODO: v.Value.AdditionalProperties.Schema.Value.Type: %v\<newline>''
                          [Str (openapi3_Schema.Type (Value sp))]])
         \<and> Type.AdditionalProperties t =
             (if openapi3_Schema.Type (Value sp) = ''string'' then ''String'' else '''')"
  using assms
  by (auto simp: parseObject_kin_def Let_def Type_zero_def split: prod.splits)

end
